theory Spec2Isabelle
  imports Complex_Main "HOL-Library.Word" "HOL-Library.AList"
begin

section \<open>Values shared by client and server\<close>

type_synonym byte = "8 word"

text \<open>JSON values, as \<open>express.json()\<close> parses request bodies and \<open>res.json\<close> sends
  responses. Numbers are kept as integers. A response is the HTTP status code with its body.\<close>

datatype json =
    JNull
  | JBool bool
  | JNum int
  | JStr string
  | JArr "json list"
  | JObj "(string \<times> json) list"

type_synonym response = "nat \<times> json"

text \<open>JavaScript truthiness of a destructured body field; \<open>None\<close> is \<open>undefined\<close>.\<close>

fun truthy :: "json option \<Rightarrow> bool" where
  "truthy None = False"
| "truthy (Some JNull) = False"
| "truthy (Some (JBool b)) = b"
| "truthy (Some (JNum n)) = (n \<noteq> 0)"
| "truthy (Some (JStr s)) = (s \<noteq> [])"
| "truthy (Some (JArr xs)) = True"
| "truthy (Some (JObj kvs)) = True"

text \<open>\<open>String(n)\<close> for a nonnegative integer: its decimal digits.\<close>

fun show_nat :: "nat \<Rightarrow> string" where
  "show_nat n =
     (if n < 10 then [''0123456789'' ! n]
      else show_nat (n div 10) @ [''0123456789'' ! (n mod 10)])"

declare show_nat.simps [simp del]

section \<open>The built-ins the server relies on\<close>

subsection \<open>\<open>parseInt\<close> with no radix argument (ECMA-262, 19.2.5)\<close>

text \<open>Header values are Latin-1 strings, so the white space recognised is TAB, LF, VT, FF,
  CR, SP and NBSP. The result is a JavaScript number: \<open>None\<close> is \<open>NaN\<close>, otherwise an
  integer-valued double or an infinity.\<close>

datatype js_num = Finite int | PosInfinity | NegInfinity

text \<open>The integer denoted by the digits becomes a Number, that is the nearest double, ties
  to even: below \<open>2 ^ 53\<close> it is kept, above it only the leading 53 bits survive, and a
  result of \<open>2 ^ 1024\<close> or more is infinite (\<open>None\<close> here). \<open>excess_bits n\<close> is the number
  of bits of \<open>n\<close> beyond 53. (For more than 20 decimal digits ECMA-262 lets an
  implementation approximate further; the statements below do not depend on the value
  there, only on its being a number.)\<close>

fun excess_bits :: "nat \<Rightarrow> nat" where
  "excess_bits n = (if n < 2 ^ 53 then 0 else Suc (excess_bits (n div 2)))"

declare excess_bits.simps [simp del]

definition to_double :: "nat \<Rightarrow> nat option" where
  "to_double n =
     (let e = excess_bits n; q = n div 2 ^ e; r = n mod 2 ^ e;
          q' = (if 2 ^ e < 2 * r \<or> (2 * r = 2 ^ e \<and> odd q) then q + 1 else q)
      in if q' * 2 ^ e < 2 ^ 1024 then Some (q' * 2 ^ e) else None)"

definition isWhiteSpace :: "char \<Rightarrow> bool" where
  "isWhiteSpace c =
     (c \<in> set [CHR 0x09, CHR 0x0A, CHR 0x0B, CHR 0x0C, CHR 0x0D, CHR 0x20, CHR 0xA0])"

definition digitValue :: "char \<Rightarrow> nat option" where
  "digitValue c =
     (let n = (of_char c :: nat) in
      if 48 \<le> n \<and> n \<le> 57 then Some (n - 48)
      else if 97 \<le> n \<and> n \<le> 122 then Some (n - 87)
      else if 65 \<le> n \<and> n \<le> 90 then Some (n - 55)
      else None)"

definition isRadixDigit :: "nat \<Rightarrow> char \<Rightarrow> bool" where
  "isRadixDigit R c = (case digitValue c of None \<Rightarrow> False | Some d \<Rightarrow> d < R)"

definition mathInt :: "nat \<Rightarrow> string \<Rightarrow> nat" where
  "mathInt R Z = foldl (\<lambda>acc c. acc * R + (case digitValue c of None \<Rightarrow> 0 | Some d \<Rightarrow> d)) 0 Z"

definition parseInt :: "string \<Rightarrow> js_num option" where
  "parseInt inputString =
     (let S = dropWhile isWhiteSpace inputString;
          sign = (if S \<noteq> [] \<and> hd S = CHR ''-'' then - 1 else (1 :: int));
          S1 = (if S \<noteq> [] \<and> (hd S = CHR ''+'' \<or> hd S = CHR ''-'') then tl S else S);
          hex = (case S1 of
                   a # b # _ \<Rightarrow> a = CHR ''0'' \<and> (b = CHR ''x'' \<or> b = CHR ''X'')
                 | _ \<Rightarrow> False);
          R = (if hex then 16 else 10);
          S2 = (if hex then drop 2 S1 else S1);
          Z = takeWhile (isRadixDigit R) S2
      in if Z = [] then None
         else case to_double (mathInt R Z) of
                None \<Rightarrow> Some (if sign < 0 then NegInfinity else PosInfinity)
              | Some m \<Rightarrow> Some (Finite (sign * int m)))"

text \<open>A header that is absent reads as \<open>undefined\<close>, which \<open>parseInt\<close> first turns into
  the string \<open>"undefined"\<close>.\<close>

definition parseInt_header :: "string option \<Rightarrow> js_num option" where
  "parseInt_header h = parseInt (case h of None \<Rightarrow> ''undefined'' | Some v \<Rightarrow> v)"

subsection \<open>Positional write, streaming read, digest\<close>

text \<open>\<open>fs.write(fd, buffer, 0, buffer.length, position)\<close> on a descriptor just opened with
  \<open>r+\<close>. Node hands the position on only if it is a safe integer, of magnitude at most
  \<open>2 ^ 53 - 1\<close>; any other number stands for "current position", and so does a negative
  position for the operating system. On a fresh descriptor the current position is 0.\<close>

definition MAX_SAFE_INTEGER :: int where
  "MAX_SAFE_INTEGER = 9007199254740991"

definition write_position :: "js_num \<Rightarrow> nat" where
  "write_position position =
     (case position of
        Finite n \<Rightarrow> if 0 \<le> n \<and> n \<le> MAX_SAFE_INTEGER then nat n else 0
      | PosInfinity \<Rightarrow> 0
      | NegInfinity \<Rightarrow> 0)"

text \<open>The bytes land at the position, a gap beyond the end of the file reads as zeros, an
  empty buffer leaves the file as it is.\<close>

definition fs_write :: "byte list \<Rightarrow> byte list \<Rightarrow> js_num \<Rightarrow> byte list" where
  "fs_write file buffer position =
     (if buffer = [] then file
      else
        let pos = write_position position
        in take pos (file @ replicate (pos - length file) 0) @ buffer
             @ drop (pos + length buffer) file)"

text \<open>\<open>fs.createReadStream\<close> delivers the file in pieces of at most \<open>highWaterMark\<close> bytes
  (64 KiB by default); the handler feeds each piece to \<open>hash.update\<close>.\<close>

definition highWaterMark :: nat where
  "highWaterMark = 65536"

fun stream_chunks :: "nat \<Rightarrow> byte list \<Rightarrow> byte list list" where
  "stream_chunks n bs =
     (if bs = [] \<or> n = 0 then [] else take n bs # stream_chunks n (drop n bs))"

text \<open>The SHA-256 implementation (\<open>crypto\<close>) and the ZIP reader (\<open>yauzl\<close>) are libraries
  outside the repository: the model takes the digest function (input bytes to digest
  bytes) and the outcome of reading the archive's entries as parameters.\<close>

datatype zip_outcome = ZipOpenError | ZipEntries "string list" | ZipReadError

record libs =
  sha256 :: "byte list \<Rightarrow> byte list"
  yauzl_read :: "byte list \<Rightarrow> zip_outcome"

text \<open>The \<open>'hex'\<close> encoding of a buffer: two lowercase digits for each byte.\<close>

definition hex_digit :: "nat \<Rightarrow> char" where
  "hex_digit d = ''0123456789abcdef'' ! d"

definition to_hex :: "byte list \<Rightarrow> string" where
  "to_hex bs = concat (map (\<lambda>b. [hex_digit (unat b div 16), hex_digit (unat b mod 16)]) bs)"

text \<open>A hash object accumulates what \<open>update\<close> receives; \<open>digest('hex')\<close> is the digest of
  the accumulated input, hex-encoded.\<close>

definition hash_stream :: "libs \<Rightarrow> byte list list \<Rightarrow> string" where
  "hash_stream L pieces = to_hex (sha256 L (foldl (\<lambda>acc d. acc @ d) [] pieces))"

section \<open>Server: upload controller\<close>

datatype upload_status = UPLOADING | PROCESSING | COMPLETED | FAILED

datatype chunk_row_status = UPLOADED

text \<open>Modelled from the spec: the schema of the durable store (\<open>db.js\<close> and the table
  definitions are not among the sources). Table \<open>uploads(id, filename, total_size,
  total_chunks, status, final_hash, created_at)\<close> with an auto-increment key, table
  \<open>chunks(upload_id, chunk_index, status, received_at)\<close> with the composite primary key
  \<open>(upload_id, chunk_index)\<close>. Times are seconds.\<close>

record upload_row =
  u_id :: nat
  u_filename :: string
  u_total_size :: int
  u_total_chunks :: int
  u_status :: upload_status
  u_final_hash :: "string option"
  u_created_at :: nat

record chunk_row =
  ch_status :: chunk_row_status
  ch_received_at :: nat

text \<open>The server state: both tables, the blob files \<open>uploads/<id>.bin\<close>, the next
  auto-increment id, and the finalize requests whose read stream is still open (upload id
  and the \<open>clientHash\<close> captured by the stream callbacks).\<close>

record server =
  uploads :: "upload_row list"
  chunk_rows :: "((nat \<times> int) \<times> chunk_row) list"
  blobs :: "nat \<rightharpoonup> byte list"
  next_id :: nat
  jobs :: "(nat \<times> json option) list"

definition empty_server :: server where
  "empty_server = \<lparr>uploads = [], chunk_rows = [], blobs = Map.empty, next_id = 1, jobs = []\<rparr>"

definition ensureFile :: "nat \<Rightarrow> (nat \<rightharpoonup> byte list) \<Rightarrow> (nat \<rightharpoonup> byte list)" where
  "ensureFile uid fs = (case fs uid of None \<Rightarrow> fs(uid \<mapsto> []) | Some _ \<Rightarrow> fs)"

definition set_status :: "nat \<Rightarrow> upload_status \<Rightarrow> upload_row list \<Rightarrow> upload_row list" where
  "set_status uid st rows = map (\<lambda>r. if u_id r = uid then r\<lparr>u_status := st\<rparr> else r) rows"

subsection \<open>\<open>initiateUpload\<close>\<close>

record init_request =
  i_filename :: string
  i_totalSize :: int
  i_totalChunks :: int

definition init_response :: "nat \<Rightarrow> int list \<Rightarrow> response" where
  "init_response uid uploadedChunks =
     (200, JObj [(''uploadId'', JNum (int uid)), (''status'', JStr ''UPLOADING''),
                 (''uploadedChunks'', JArr (map JNum uploadedChunks))])"

text \<open>\<open>db_error\<close>: the first query throws.\<close>

definition initiateUpload :: "nat \<Rightarrow> bool \<Rightarrow> init_request \<Rightarrow> server \<Rightarrow> response \<times> server" where
  "initiateUpload now db_error req s =
     (if db_error then ((500, JObj [(''error'', JStr ''Database error'')]), s)
      else
        case filter (\<lambda>r. u_filename r = i_filename req \<and> u_total_size r = i_totalSize req
                          \<and> u_status r \<noteq> COMPLETED \<and> u_status r \<noteq> FAILED) (uploads s) of
          upload # _ \<Rightarrow>
            let uid = u_id upload;
                uploadedChunks =
                  map (\<lambda>(k, c). snd k)
                    (filter (\<lambda>(k, c). fst k = uid \<and> ch_status c = UPLOADED) (chunk_rows s))
            in if blobs s uid = None
               then (init_response uid [],
                     s\<lparr>chunk_rows := filter (\<lambda>(k, c). fst k \<noteq> uid) (chunk_rows s),
                       blobs := ensureFile uid (blobs s)\<rparr>)
               else (init_response uid uploadedChunks, s)
        | [] \<Rightarrow>
            let uid = next_id s
            in (init_response uid [],
                s\<lparr>uploads := uploads s @
                     [\<lparr>u_id = uid, u_filename = i_filename req, u_total_size = i_totalSize req,
                       u_total_chunks = i_totalChunks req, u_status = UPLOADING,
                       u_final_hash = None, u_created_at = now\<rparr>],
                  next_id := Suc uid,
                  blobs := ensureFile uid (blobs s)\<rparr>))"

subsection \<open>\<open>uploadChunk\<close>\<close>

record put_request =
  p_uploadId :: nat
  p_chunkIndex :: int
  p_body :: "byte list"
  p_offset_header :: "string option"

text \<open>What the environment does to the request: nothing, \<open>fs.write\<close> throws, or the
  \<open>INSERT\<close> throws.\<close>

datatype put_env = IO_ok | FS_write_error | DB_insert_error

definition uploadChunk :: "nat \<Rightarrow> put_env \<Rightarrow> put_request \<Rightarrow> server \<Rightarrow> response \<times> server" where
  "uploadChunk now env req s =
     (case parseInt_header (p_offset_header req) of
        None \<Rightarrow> ((400, JObj [(''error'', JStr ''Missing X-Chunk-Offset header'')]), s)
      | Some offset \<Rightarrow>
          let uid = p_uploadId req;
              s1 = s\<lparr>blobs := ensureFile uid (blobs s)\<rparr>
          in if env = FS_write_error
             then ((500, JObj [(''error'', JStr ''Write failed'')]), s1)
             else
               let file = (case blobs s1 uid of None \<Rightarrow> [] | Some bs \<Rightarrow> bs);
                   s2 = s1\<lparr>blobs := (blobs s1)(uid \<mapsto> fs_write file (p_body req) offset)\<rparr>
               in if env = DB_insert_error
                  then ((500, JObj [(''error'', JStr ''Write failed'')]), s2)
                  else ((200, JObj [(''success'', JBool True)]),
                        s2\<lparr>chunk_rows :=
                             AList.update (uid, p_chunkIndex req)
                               \<lparr>ch_status = UPLOADED, ch_received_at = now\<rparr> (chunk_rows s2)\<rparr>))"

subsection \<open>\<open>finalizeUpload\<close>\<close>

text \<open>The route parameter \<open>uploadId\<close> is the decimal text of an upload id (the client builds
  the URL from the number that init returned); the request records the id, and
  \<open>show_nat\<close> gives the text back where the handler echoes it.\<close>

record finalize_request =
  f_uploadId :: nat
  f_clientHash :: "json option"

text \<open>The handler proper: it answers at once (404, 200, 409), or marks the upload
  PROCESSING, opens the read stream and returns without a response; the response is then
  sent by the stream's callbacks.\<close>

definition finalizeUpload :: "finalize_request \<Rightarrow> server \<Rightarrow> response option \<times> server" where
  "finalizeUpload req s =
     (case filter (\<lambda>r. u_id r = f_uploadId req) (uploads s) of
        [] \<Rightarrow> (Some (404, JObj [(''error'', JStr ''Upload not found'')]), s)
      | upload # _ \<Rightarrow>
          if u_status upload = COMPLETED
          then (Some (200, JObj [(''status'', JStr ''COMPLETED''),
                                 (''message'', JStr ''Already completed'')]), s)
          else if u_status upload = PROCESSING
          then (Some (409, JObj [(''error'', JStr ''Already processing'')]), s)
          else (None,
                s\<lparr>uploads := set_status (f_uploadId req) PROCESSING (uploads s),
                  jobs := jobs s @ [(f_uploadId req, f_clientHash req)]\<rparr>))"

text \<open>The entry list handed to \<open>finish\<close> by the three \<open>yauzl\<close> callbacks.\<close>

fun zipContent :: "zip_outcome \<Rightarrow> string list" where
  "zipContent ZipOpenError = [''(Not a valid ZIP archive)'']"
| "zipContent (ZipEntries zipEntries) = zipEntries"
| "zipContent ZipReadError = [''(Error reading ZIP structure)'']"

text \<open>\<open>finish\<close> echoes \<open>req.params.uploadId\<close>, which is a string: the decimal text of the id,
  as the client writes it into the URL.\<close>

definition finish :: "nat \<Rightarrow> string \<Rightarrow> string list \<Rightarrow> server \<Rightarrow> response \<times> server" where
  "finish uid finalHash entries s =
     ((200, JObj [(''status'', JStr ''COMPLETED''), (''uploadId'', JStr (show_nat uid)),
                  (''hash'', JStr finalHash), (''zipContent'', JArr (map JStr entries))]),
      s\<lparr>uploads := map (\<lambda>r. if u_id r = uid
                             then r\<lparr>u_status := COMPLETED, u_final_hash := Some finalHash\<rparr>
                             else r) (uploads s)\<rparr>)"

text \<open>The stream callbacks of one finalize request: \<open>'error'\<close> when the blob is missing or
  a read fails, otherwise \<open>'data'\<close> for each piece and then \<open>'end'\<close>.\<close>

definition stream_done :: "libs \<Rightarrow> bool \<Rightarrow> nat \<times> json option \<Rightarrow> server \<Rightarrow> response \<times> server" where
  "stream_done L read_error job s =
     (let uid = fst job; clientHash = snd job
      in case (if read_error then None else blobs s uid) of
           None \<Rightarrow>
             ((500, JObj [(''error'', JStr ''File read error during hashing'')]),
              s\<lparr>uploads := set_status uid FAILED (uploads s)\<rparr>)
         | Some bs \<Rightarrow>
             let serverHash = hash_stream L (stream_chunks highWaterMark bs)
             in if truthy clientHash \<and> clientHash \<noteq> Some (JStr serverHash)
                then ((400, JObj [(''error'', JStr ''Hash mismatch''),
                                  (''serverHash'', JStr serverHash),
                                  (''clientHash'', (case clientHash of None \<Rightarrow> JNull | Some c \<Rightarrow> c))]),
                      s\<lparr>uploads := set_status uid FAILED (uploads s)\<rparr>)
                else finish uid serverHash (zipContent (yauzl_read L bs)) s)"

text \<open>One finalize request served with nothing in between: the handler, then the
  callbacks of the stream it opened.\<close>

definition finalize_request :: "libs \<Rightarrow> bool \<Rightarrow> finalize_request \<Rightarrow> server \<Rightarrow> response \<times> server" where
  "finalize_request L read_error req s =
     (case finalizeUpload req s of
        (Some resp, s1) \<Rightarrow> (resp, s1)
      | (None, s1) \<Rightarrow>
          stream_done L read_error (last (jobs s1)) (s1\<lparr>jobs := butlast (jobs s1)\<rparr>))"

subsection \<open>\<open>cleanup\<close>\<close>

definition cleanup_row :: "upload_row \<Rightarrow> server \<Rightarrow> server" where
  "cleanup_row row s =
     s\<lparr>blobs := (blobs s)(u_id row := None),
       uploads := set_status (u_id row) FAILED (uploads s)\<rparr>"

text \<open>\<open>db_error\<close>: the \<open>SELECT\<close> throws with that message.\<close>

definition cleanup :: "nat \<Rightarrow> string option \<Rightarrow> server \<Rightarrow> response \<times> server" where
  "cleanup now db_error s =
     (case db_error of
        Some message \<Rightarrow> ((500, JObj [(''error'', JStr message)]), s)
      | None \<Rightarrow>
          let rows = filter (\<lambda>r. u_status r = UPLOADING \<and> u_created_at r + 86400 < now) (uploads s)
          in ((200, JObj [(''cleaned'', JNum (int (length rows)))]),
              foldl (\<lambda>s' row. cleanup_row row s') s rows))"

subsection \<open>Sequences of server operations\<close>

text \<open>Requests served one after the other. Each step below is a handler's database and
  file section taken as a whole; a finalize is two steps, since other requests are served
  while its stream is read. \<open>StreamDone k\<close> completes the \<open>k\<close>-th open stream and does
  nothing if there is none. In the source a handler awaits between its \<open>SELECT\<close> and its
  \<open>UPDATE\<close>, and the \<open>UPDATE\<close>s carry no status guard: requests whose handlers overlap
  inside these sections are not among the executions described here.\<close>

datatype server_op =
    Init bool init_request
  | Put put_env put_request
  | Finalize finalize_request
  | StreamDone nat bool
  | Cleanup "string option"

definition exec :: "libs \<Rightarrow> nat \<Rightarrow> server_op \<Rightarrow> server \<Rightarrow> server" where
  "exec L now op s =
     (case op of
        Init e req \<Rightarrow> snd (initiateUpload now e req s)
      | Put e req \<Rightarrow> snd (uploadChunk now e req s)
      | Finalize req \<Rightarrow> snd (finalizeUpload req s)
      | StreamDone k e \<Rightarrow>
          (if k < length (jobs s)
           then snd (stream_done L e (jobs s ! k) (s\<lparr>jobs := take k (jobs s) @ drop (Suc k) (jobs s)\<rparr>))
           else s)
      | Cleanup e \<Rightarrow> snd (cleanup now e s))"

fun run :: "libs \<Rightarrow> (nat \<times> server_op) list \<Rightarrow> server \<Rightarrow> server" where
  "run L [] s = s"
| "run L ((now, op) # ops) s = run L ops (exec L now op s)"

section \<open>Client: the \<open>FileUploader\<close> engine\<close>

definition CHUNK_SIZE :: nat where
  "CHUNK_SIZE = 1024 * 1024 * 5"

definition MAX_CONCURRENCY :: int where
  "MAX_CONCURRENCY = 3"

definition MAX_RETRIES :: nat where
  "MAX_RETRIES = 3"

datatype chunk_status = C_PENDING | C_UPLOADING | C_SUCCESS | C_ERROR_RETRY | C_ERROR_FATAL

datatype engine_status = E_IDLE | E_UPLOADING | E_PAUSED | E_PROCESSING | E_COMPLETED | E_FAILED

record chunk =
  c_index :: nat
  c_start :: nat
  c_end :: nat
  c_status :: chunk_status
  c_attempts :: nat

text \<open>The fields of the \<open>FileUploader\<close> object, followed by what the JavaScript runtime
  holds for it. Chunk objects live in \<open>heap\<close> and are referred to by their position there:
  \<open>chunks\<close> (the array \<open>this.chunks\<close>), the pending PUT promises \<open>inflight\<close> and the pending
  \<open>setTimeout\<close> callbacks \<open>timers\<close> (due time in milliseconds, chunk) all hold such
  references. \<open>clock\<close> is the time in milliseconds.\<close>

record uploader =
  file_size :: nat
  chunkSize :: nat
  totalChunks :: nat
  uploadId :: "nat option"
  chunks :: "nat list"
  activeUploads :: int
  status :: engine_status
  startTime :: "nat option"
  uploadedBytes :: int
  heap :: "chunk list"
  clock :: nat
  init_pending :: nat
  inflight :: "nat list"
  timers :: "(nat \<times> nat) list"
  finalize_pending :: nat

text \<open>\<open>Math.ceil(a / b)\<close>, the quotient taken in the reals.\<close>

definition Math_ceil_div :: "nat \<Rightarrow> nat \<Rightarrow> nat" where
  "Math_ceil_div a b = nat \<lceil>real a / real b\<rceil>"

text \<open>The constructor, for a file of the given size.\<close>

definition new_FileUploader :: "nat \<Rightarrow> uploader" where
  "new_FileUploader size_of_file =
     \<lparr>file_size = size_of_file, chunkSize = CHUNK_SIZE,
      totalChunks = Math_ceil_div size_of_file CHUNK_SIZE,
      uploadId = None, chunks = [], activeUploads = 0, status = E_IDLE,
      startTime = None, uploadedBytes = 0,
      heap = [], clock = 0, init_pending = 0, inflight = [], timers = [],
      finalize_pending = 0\<rparr>"

definition set_chunk_status :: "nat \<Rightarrow> chunk_status \<Rightarrow> uploader \<Rightarrow> uploader" where
  "set_chunk_status a st e = e\<lparr>heap := (heap e)[a := (heap e ! a)\<lparr>c_status := st\<rparr>]\<rparr>"

text \<open>\<open>_uploadChunk\<close> up to its \<open>await\<close>: the slot is taken, the chunk marked, the PUT sent.\<close>

definition uploadChunk_send :: "nat \<Rightarrow> uploader \<Rightarrow> uploader" where
  "uploadChunk_send a e =
     (set_chunk_status a C_UPLOADING (e\<lparr>activeUploads := activeUploads e + 1\<rparr>))
       \<lparr>inflight := inflight e @ [a]\<rparr>"

text \<open>\<open>_finalize\<close> up to its \<open>await\<close>.\<close>

definition finalize_send :: "uploader \<Rightarrow> uploader" where
  "finalize_send e = e\<lparr>status := E_PROCESSING, finalize_pending := Suc (finalize_pending e)\<rparr>"

text \<open>The \<open>while\<close> loop of \<open>_processQueue\<close> over the filtered array \<open>pending\<close>.\<close>

fun fill_slots :: "nat list \<Rightarrow> uploader \<Rightarrow> uploader" where
  "fill_slots [] e = e"
| "fill_slots (a # pending) e =
     (if activeUploads e < MAX_CONCURRENCY then fill_slots pending (uploadChunk_send a e) else e)"

definition processQueue :: "uploader \<Rightarrow> uploader" where
  "processQueue e =
     (if status e \<noteq> E_UPLOADING then e
      else
        let pending = filter (\<lambda>a. c_status (heap e ! a) = C_PENDING
                                   \<or> c_status (heap e ! a) = C_ERROR_RETRY) (chunks e);
            uploading = filter (\<lambda>a. c_status (heap e ! a) = C_UPLOADING) (chunks e)
        in if pending = [] \<and> uploading = [] then finalize_send e
           else fill_slots pending e)"

text \<open>\<open>start\<close> up to the \<open>await\<close> of the init request, and the continuations after it.\<close>

definition start :: "uploader \<Rightarrow> uploader" where
  "start e =
     (if status e = E_UPLOADING then e
      else e\<lparr>status := E_UPLOADING, startTime := Some (clock e),
             init_pending := Suc (init_pending e)\<rparr>)"

definition plan_chunk :: "uploader \<Rightarrow> int list \<Rightarrow> nat \<Rightarrow> chunk" where
  "plan_chunk e uploadedChunks i =
     \<lparr>c_index = i, c_start = i * chunkSize e,
      c_end = min (i * chunkSize e + chunkSize e) (file_size e),
      c_status = (if int i \<in> set uploadedChunks then C_SUCCESS else C_PENDING),
      c_attempts = 0\<rparr>"

definition start_init_ok :: "nat \<Rightarrow> int list \<Rightarrow> uploader \<Rightarrow> uploader" where
  "start_init_ok uid uploadedChunks e =
     (let plan = map (plan_chunk e uploadedChunks) [0..<totalChunks e];
          already = filter (\<lambda>c. c_status c = C_SUCCESS) plan
      in processQueue
           (e\<lparr>uploadId := Some uid,
              chunks := [length (heap e)..<length (heap e) + length plan],
              heap := heap e @ plan,
              uploadedBytes := uploadedBytes e + (\<Sum>c\<leftarrow>already. int (c_end c) - int (c_start c)),
              init_pending := init_pending e - 1\<rparr>))"

definition start_init_failed :: "uploader \<Rightarrow> uploader" where
  "start_init_failed e = e\<lparr>status := E_FAILED, init_pending := init_pending e - 1\<rparr>"

definition pause :: "uploader \<Rightarrow> uploader" where
  "pause e = e\<lparr>status := E_PAUSED\<rparr>"

definition resume :: "uploader \<Rightarrow> uploader" where
  "resume e =
     (if status e = E_PAUSED \<or> status e = E_FAILED
      then processQueue (e\<lparr>status := E_UPLOADING\<rparr>) else e)"

text \<open>\<open>_uploadChunk\<close> after the \<open>await\<close>: the PUT resolved.\<close>

definition uploadChunk_ok :: "nat \<Rightarrow> uploader \<Rightarrow> uploader" where
  "uploadChunk_ok a e =
     (let c = heap e ! a
      in processQueue
           ((set_chunk_status a C_SUCCESS e)
              \<lparr>uploadedBytes := uploadedBytes e + (int (c_end c) - int (c_start c)),
               activeUploads := activeUploads e - 1\<rparr>))"

text \<open>\<open>_uploadChunk\<close> after the \<open>await\<close>: the PUT rejected (the \<open>catch\<close> block).\<close>

definition uploadChunk_failed :: "nat \<Rightarrow> uploader \<Rightarrow> uploader" where
  "uploadChunk_failed a e =
     (let c = (heap e ! a)\<lparr>c_attempts := Suc (c_attempts (heap e ! a))\<rparr>
      in if c_attempts c \<le> MAX_RETRIES
         then
           let delay = 2 ^ c_attempts c * 1000
           in processQueue
                (e\<lparr>heap := (heap e)[a := c\<lparr>c_status := C_ERROR_RETRY\<rparr>],
                   timers := timers e @ [(clock e + delay, a)],
                   activeUploads := activeUploads e - 1\<rparr>)
         else
           e\<lparr>heap := (heap e)[a := c\<lparr>c_status := C_ERROR_FATAL\<rparr>],
             status := E_FAILED,
             activeUploads := activeUploads e - 1\<rparr>)"

text \<open>The \<open>setTimeout\<close> callback of the retry path.\<close>

definition retry_timer :: "nat \<Rightarrow> uploader \<Rightarrow> uploader" where
  "retry_timer a e =
     (if status e = E_UPLOADING
      then processQueue (set_chunk_status a C_PENDING (e\<lparr>activeUploads := activeUploads e - 1\<rparr>))
      else e)"

definition finalize_ok :: "uploader \<Rightarrow> uploader" where
  "finalize_ok e = e\<lparr>status := E_COMPLETED, finalize_pending := finalize_pending e - 1\<rparr>"

definition finalize_failed :: "uploader \<Rightarrow> uploader" where
  "finalize_failed e = e\<lparr>status := E_FAILED, finalize_pending := finalize_pending e - 1\<rparr>"

subsection \<open>Executions of the engine\<close>

text \<open>What can happen to the engine: a call from the page, the outcome of a request it is
  waiting for, a backoff timer that is due, or time passing. An event that cannot happen in
  the current state (no such request or timer pending) gives \<open>None\<close>.\<close>

datatype event =
    CallStart
  | InitOk nat "int list"
  | InitFailed
  | CallPause
  | CallResume
  | PutSucceeds nat
  | PutFails nat
  | TimerFires nat
  | FinalizeOk
  | FinalizeFailed
  | Tick nat

definition due_timer :: "nat \<Rightarrow> uploader \<Rightarrow> (nat \<times> nat) option" where
  "due_timer a e = find (\<lambda>t. snd t = a \<and> fst t \<le> clock e) (timers e)"

definition step :: "event \<Rightarrow> uploader \<Rightarrow> uploader option" where
  "step ev e =
     (case ev of
        CallStart \<Rightarrow> Some (start e)
      | InitOk uid uploadedChunks \<Rightarrow>
          if 0 < init_pending e then Some (start_init_ok uid uploadedChunks e) else None
      | InitFailed \<Rightarrow> if 0 < init_pending e then Some (start_init_failed e) else None
      | CallPause \<Rightarrow> Some (pause e)
      | CallResume \<Rightarrow> Some (resume e)
      | PutSucceeds a \<Rightarrow>
          if a \<in> set (inflight e)
          then Some (uploadChunk_ok a (e\<lparr>inflight := remove1 a (inflight e)\<rparr>)) else None
      | PutFails a \<Rightarrow>
          if a \<in> set (inflight e)
          then Some (uploadChunk_failed a (e\<lparr>inflight := remove1 a (inflight e)\<rparr>)) else None
      | TimerFires a \<Rightarrow>
          (case due_timer a e of
             None \<Rightarrow> None
           | Some t \<Rightarrow> Some (retry_timer a (e\<lparr>timers := remove1 t (timers e)\<rparr>)))
      | FinalizeOk \<Rightarrow> if 0 < finalize_pending e then Some (finalize_ok e) else None
      | FinalizeFailed \<Rightarrow> if 0 < finalize_pending e then Some (finalize_failed e) else None
      | Tick d \<Rightarrow> Some (e\<lparr>clock := clock e + d\<rparr>))"

fun run_events :: "event list \<Rightarrow> uploader \<Rightarrow> uploader option" where
  "run_events [] e = Some e"
| "run_events (ev # evs) e = (case step ev e of None \<Rightarrow> None | Some e' \<Rightarrow> run_events evs e')"

text \<open>The two readings of "in flight": chunks whose status is UPLOADING, and PUT requests
  sent and not yet answered.\<close>

definition uploading_chunks :: "uploader \<Rightarrow> nat list" where
  "uploading_chunks e = filter (\<lambda>a. c_status (heap e ! a) = C_UPLOADING) (chunks e)"

section \<open>Notions used in the statements\<close>

text \<open>The status changes a single step may make to an upload: those of invariant I2, and
  in addition FAILED to PROCESSING. Anything else is allowed only if it changes nothing.\<close>

definition transition_ok :: "upload_status \<Rightarrow> upload_status \<Rightarrow> bool" where
  "transition_ok a b =
     (a = b \<or> (a, b) \<in> set [(UPLOADING, PROCESSING), (UPLOADING, FAILED),
                               (PROCESSING, COMPLETED), (PROCESSING, FAILED),
                               (FAILED, PROCESSING)])"

text \<open>What the tables guarantee between steps: upload ids are unique and below the next
  auto-increment value, and every open finalize stream belongs to a different upload, which
  is in PROCESSING.\<close>

definition server_inv :: "server \<Rightarrow> bool" where
  "server_inv s =
     (distinct (map u_id (uploads s))
      \<and> list_all (\<lambda>r. u_id r < next_id s) (uploads s)
      \<and> distinct (map fst (jobs s))
      \<and> list_all (\<lambda>j. list_ex (\<lambda>r. u_id r = fst j \<and> u_status r = PROCESSING) (uploads s))
           (jobs s))"

text \<open>One step on the \<open>uploads\<close> table: no row is removed or moved, every row keeps its
  id, and its status changes by an allowed transition or not at all.\<close>

definition rows_step_ok :: "upload_row list \<Rightarrow> upload_row list \<Rightarrow> bool" where
  "rows_step_ok rows rows' =
     (length rows \<le> length rows'
      \<and> list_all (\<lambda>k. u_id (rows' ! k) = u_id (rows ! k)
                         \<and> transition_ok (u_status (rows ! k)) (u_status (rows' ! k)))
           [0..<length rows])"

text \<open>Following the spec's words for the offset header, "a valid nonnegative integer": a
  non-empty string of decimal digits.\<close>

definition nonneg_integer_text :: "string \<Rightarrow> bool" where
  "nonneg_integer_text v = (v \<noteq> [] \<and> list_all (isRadixDigit 10) v)"

text \<open>A string of lowercase hexadecimal digits.\<close>

definition lowercase_hex :: "string \<Rightarrow> bool" where
  "lowercase_hex h = list_all (\<lambda>c. c \<in> set ''0123456789abcdef'') h"

text \<open>The libraries as they behave on an empty blob, which is all the examples below
  stream: the 32 bytes of SHA-256 of the empty input, and a file that is not a ZIP
  archive.\<close>

definition empty_blob_libs :: libs where
  "empty_blob_libs =
     \<lparr>sha256 = (\<lambda>bs. [227, 176, 196, 66, 152, 252, 28, 20,
                         154, 251, 244, 200, 153, 111, 185, 36,
                         39, 174, 65, 228, 100, 155, 147, 76,
                         164, 149, 153, 27, 120, 82, 184, 85]),
      yauzl_read = (\<lambda>bs. ZipOpenError)\<rparr>"

text \<open>Two server states used in the examples: an upload of three chunks just created by
  \<open>init\<close> (its blob is empty, no chunk has arrived), and the same upload after a finalize
  without \<open>clientHash\<close>. \<open>zeros_hash\<close> is a \<open>clientHash\<close> that is not the digest of the empty
  blob.\<close>

definition example_init :: init_request where
  "example_init = \<lparr>i_filename = ''a.bin'', i_totalSize = 12582912, i_totalChunks = 3\<rparr>"

definition fresh_upload :: server where
  "fresh_upload = snd (initiateUpload 0 False example_init empty_server)"

definition completed_upload :: server where
  "completed_upload =
     snd (finalize_request empty_blob_libs False \<lparr>f_uploadId = 1, f_clientHash = None\<rparr>
            fresh_upload)"

definition zeros_hash :: string where
  "zeros_hash = ''0000000000000000000000000000000000000000000000000000000000000000''"

section \<open>Client engine: chunk plan\<close>

lemma ceil_div_upper: "0 < b \<Longrightarrow> a \<le> ((a + b - 1) div b) * (b::nat)"
proof -
  assume b: "0 < b"
  have "(a + b - 1) div b * b + (a + b - 1) mod b = a + b - 1" by simp
  moreover have "(a + b - 1) mod b \<le> b - 1" using b by (simp add: less_Suc_eq_le[symmetric])
  ultimately show ?thesis using b by linarith
qed

lemma ceil_div_lower: "0 < b \<Longrightarrow> ((a + b - 1) div b) * (b::nat) < a + b"
proof -
  assume b: "0 < b"
  have "(a + b - 1) div b * b \<le> a + b - 1" by simp
  then show ?thesis using b by linarith
qed

lemma ceil_div_least: "0 < b \<Longrightarrow> a \<le> j * b \<Longrightarrow> (a + b - 1) div b \<le> (j::nat)"
proof -
  assume b: "0 < b" and j: "a \<le> j * b"
  have "((a + b - 1) div b) * b < a + b" using b by (rule ceil_div_lower)
  also have "\<dots> \<le> (j + 1) * b" using j by simp
  finally have "(a + b - 1) div b < j + 1" by (simp only: mult_less_cancel2)
  then show ?thesis by simp
qed

text \<open>The real-number ceiling of the quotient is the rounded-up integer division.\<close>

lemma Math_ceil_div_eq: "0 < b \<Longrightarrow> Math_ceil_div a b = (a + b - 1) div b"
proof -
  assume b: "0 < b"
  let ?k = "(a + b - 1) div b"
  have up: "real a \<le> real (?k * b)"
    using ceil_div_upper[OF b, of a] by (simp only: of_nat_le_iff)
  have lo: "real (?k * b) < real (a + b)"
    using ceil_div_lower[OF b, of a] by (simp only: of_nat_less_iff)
  have "real a / real b \<le> real ?k"
    using up b by (simp add: divide_le_eq)
  moreover have "real ?k - 1 < real a / real b"
    using lo b by (simp add: less_divide_eq algebra_simps)
  ultimately have "\<lceil>real a / real b\<rceil> = int ?k"
    by (intro ceiling_unique) simp_all
  then show ?thesis by (simp add: Math_ceil_div_def)
qed

lemma totalChunks_new: "totalChunks (new_FileUploader n) = (n + CHUNK_SIZE - 1) div CHUNK_SIZE"
  by (simp add: new_FileUploader_def Math_ceil_div_eq CHUNK_SIZE_def)

text \<open>C7, as amended. The \<open>totalChunks\<close> computed by the constructor for a file of \<open>n\<close>
  bytes is \<open>ceil(n / CHUNK_SIZE)\<close>, that is, the least number of chunks of \<open>CHUNK_SIZE\<close>
  bytes that cover the file; it is at least 1 exactly when the file is not empty, and it is
  0 for a zero-byte file.\<close>

theorem totalChunks_is_ceiling:
  "totalChunks (new_FileUploader n) = nat \<lceil>real n / real CHUNK_SIZE\<rceil>
   \<and> n \<le> totalChunks (new_FileUploader n) * CHUNK_SIZE
   \<and> (\<forall>j. n \<le> j * CHUNK_SIZE \<longrightarrow> totalChunks (new_FileUploader n) \<le> j)
   \<and> (1 \<le> totalChunks (new_FileUploader n) \<longleftrightarrow> 1 \<le> n)
   \<and> totalChunks (new_FileUploader 0) = 0"
proof -
  have pos: "0 < CHUNK_SIZE" by (simp add: CHUNK_SIZE_def)
  have a: "totalChunks (new_FileUploader n) = nat \<lceil>real n / real CHUNK_SIZE\<rceil>"
    by (simp add: new_FileUploader_def Math_ceil_div_def)
  have b: "n \<le> totalChunks (new_FileUploader n) * CHUNK_SIZE"
    unfolding totalChunks_new using pos by (rule ceil_div_upper)
  have c: "\<forall>j. n \<le> j * CHUNK_SIZE \<longrightarrow> totalChunks (new_FileUploader n) \<le> j"
    unfolding totalChunks_new using pos by (blast intro: ceil_div_least)
  have z: "totalChunks (new_FileUploader 0) = 0"
    unfolding totalChunks_new by (simp add: CHUNK_SIZE_def)
  have d: "1 \<le> totalChunks (new_FileUploader n) \<longleftrightarrow> 1 \<le> n"
  proof (cases "n = 0")
    case True
    then show ?thesis using z by simp
  next
    case False
    have "totalChunks (new_FileUploader n) \<noteq> 0"
    proof
      assume "totalChunks (new_FileUploader n) = 0"
      with b have "n = 0" by simp
      with False show False by simp
    qed
    with False show ?thesis by simp
  qed
  from a b c d z show ?thesis by blast
qed

text \<open>A 12 MiB file: the two bounds of the theorem leave 3 as the only value.\<close>

theorem totalChunks_is_ceiling_witness:
  "12582912 \<le> 3 * CHUNK_SIZE \<and> totalChunks (new_FileUploader 12582912) = 3"
proof -
  have h: "(12582912::nat) \<le> 3 * CHUNK_SIZE" by (simp add: CHUNK_SIZE_def)
  from totalChunks_is_ceiling [of 12582912] h
  have le: "totalChunks (new_FileUploader 12582912) \<le> 3"
    and ge: "12582912 \<le> totalChunks (new_FileUploader 12582912) * CHUNK_SIZE"
    by blast+
  from ge have "2 < totalChunks (new_FileUploader 12582912)"
    by (simp add: CHUNK_SIZE_def)
  with le h show ?thesis by simp
qed

text \<open>C7 as stated fails for a zero-byte file: its chunk count is not positive.\<close>

theorem totalChunks_zero_byte_file_counterexample:
  "\<not> 1 \<le> totalChunks (new_FileUploader 0)"
  by (simp add: totalChunks_new CHUNK_SIZE_def)

section \<open>Client engine: two executions\<close>

lemmas engine_defs = step_def start_def start_init_ok_def plan_chunk_def processQueue_def
  uploadChunk_send_def set_chunk_status_def uploadChunk_ok_def uploadChunk_failed_def
  retry_timer_def due_timer_def finalize_send_def MAX_CONCURRENCY_def MAX_RETRIES_def

lemma upt_0_4: "[0..<4] = [0, 1, 2, 3::nat]"
  by code_simp

text \<open>C1. A file of four chunks. The engine starts and sends chunks 0, 1 and 2. The PUT
  of chunk 0 fails: the chunk becomes ERROR_RETRY, its timer is set, the slot is released,
  and the scheduler, whose \<open>pending\<close> filter takes ERROR_RETRY chunks too, sends chunk 0
  again at once. That PUT succeeds and chunk 3 is sent. Two seconds after the failure the
  timer fires: it releases a slot a second time, marks chunk 0 PENDING and the scheduler
  sends it once more. Now four chunks are UPLOADING and four PUTs are unanswered, above
  \<open>MAX_CONCURRENCY\<close>, while \<open>activeUploads\<close> says 3.\<close>

theorem bounded_concurrency_exceeded:
  "map_option (\<lambda>e. (length (uploading_chunks e), length (inflight e), activeUploads e))
     (run_events
        [CallStart, InitOk 1 [], PutFails 0, PutSucceeds 0, Tick 2000, TimerFires 0]
        (new_FileUploader (4 * CHUNK_SIZE)))
   = Some (4, 4, 3)"
proof -
  let ?e0 = "\<lparr>file_size = 20971520, chunkSize = 5242880, totalChunks = 4, uploadId = None,
            chunks = [], activeUploads = 0, status = E_IDLE, startTime = None,
            uploadedBytes = 0,
            heap = [],
            clock = 0, init_pending = 0, inflight = [],
            timers = [], finalize_pending = 0\<rparr>"
  let ?e1 = "\<lparr>file_size = 20971520, chunkSize = 5242880, totalChunks = 4, uploadId = None,
            chunks = [], activeUploads = 0, status = E_UPLOADING, startTime = Some 0,
            uploadedBytes = 0,
            heap = [],
            clock = 0, init_pending = 1, inflight = [],
            timers = [], finalize_pending = 0\<rparr>"
  let ?e2 = "\<lparr>file_size = 20971520, chunkSize = 5242880, totalChunks = 4, uploadId = Some 1,
            chunks = [0, 1, 2, 3], activeUploads = 3, status = E_UPLOADING, startTime = Some 0,
            uploadedBytes = 0,
            heap = [\<lparr>c_index = 0, c_start = 0, c_end = 5242880, c_status = C_UPLOADING, c_attempts = 0\<rparr>,
                    \<lparr>c_index = 1, c_start = 5242880, c_end = 10485760, c_status = C_UPLOADING, c_attempts = 0\<rparr>,
                    \<lparr>c_index = 2, c_start = 10485760, c_end = 15728640, c_status = C_UPLOADING, c_attempts = 0\<rparr>,
                    \<lparr>c_index = 3, c_start = 15728640, c_end = 20971520, c_status = C_PENDING, c_attempts = 0\<rparr>],
            clock = 0, init_pending = 0, inflight = [0, 1, 2],
            timers = [], finalize_pending = 0\<rparr>"
  let ?e3 = "\<lparr>file_size = 20971520, chunkSize = 5242880, totalChunks = 4, uploadId = Some 1,
            chunks = [0, 1, 2, 3], activeUploads = 3, status = E_UPLOADING, startTime = Some 0,
            uploadedBytes = 0,
            heap = [\<lparr>c_index = 0, c_start = 0, c_end = 5242880, c_status = C_UPLOADING, c_attempts = 1\<rparr>,
                    \<lparr>c_index = 1, c_start = 5242880, c_end = 10485760, c_status = C_UPLOADING, c_attempts = 0\<rparr>,
                    \<lparr>c_index = 2, c_start = 10485760, c_end = 15728640, c_status = C_UPLOADING, c_attempts = 0\<rparr>,
                    \<lparr>c_index = 3, c_start = 15728640, c_end = 20971520, c_status = C_PENDING, c_attempts = 0\<rparr>],
            clock = 0, init_pending = 0, inflight = [1, 2, 0],
            timers = [(2000, 0)], finalize_pending = 0\<rparr>"
  let ?e4 = "\<lparr>file_size = 20971520, chunkSize = 5242880, totalChunks = 4, uploadId = Some 1,
            chunks = [0, 1, 2, 3], activeUploads = 3, status = E_UPLOADING, startTime = Some 0,
            uploadedBytes = 5242880,
            heap = [\<lparr>c_index = 0, c_start = 0, c_end = 5242880, c_status = C_SUCCESS, c_attempts = 1\<rparr>,
                    \<lparr>c_index = 1, c_start = 5242880, c_end = 10485760, c_status = C_UPLOADING, c_attempts = 0\<rparr>,
                    \<lparr>c_index = 2, c_start = 10485760, c_end = 15728640, c_status = C_UPLOADING, c_attempts = 0\<rparr>,
                    \<lparr>c_index = 3, c_start = 15728640, c_end = 20971520, c_status = C_UPLOADING, c_attempts = 0\<rparr>],
            clock = 0, init_pending = 0, inflight = [1, 2, 3],
            timers = [(2000, 0)], finalize_pending = 0\<rparr>"
  let ?e5 = "\<lparr>file_size = 20971520, chunkSize = 5242880, totalChunks = 4, uploadId = Some 1,
            chunks = [0, 1, 2, 3], activeUploads = 3, status = E_UPLOADING, startTime = Some 0,
            uploadedBytes = 5242880,
            heap = [\<lparr>c_index = 0, c_start = 0, c_end = 5242880, c_status = C_SUCCESS, c_attempts = 1\<rparr>,
                    \<lparr>c_index = 1, c_start = 5242880, c_end = 10485760, c_status = C_UPLOADING, c_attempts = 0\<rparr>,
                    \<lparr>c_index = 2, c_start = 10485760, c_end = 15728640, c_status = C_UPLOADING, c_attempts = 0\<rparr>,
                    \<lparr>c_index = 3, c_start = 15728640, c_end = 20971520, c_status = C_UPLOADING, c_attempts = 0\<rparr>],
            clock = 2000, init_pending = 0, inflight = [1, 2, 3],
            timers = [(2000, 0)], finalize_pending = 0\<rparr>"
  let ?e6 = "\<lparr>file_size = 20971520, chunkSize = 5242880, totalChunks = 4, uploadId = Some 1,
            chunks = [0, 1, 2, 3], activeUploads = 3, status = E_UPLOADING, startTime = Some 0,
            uploadedBytes = 5242880,
            heap = [\<lparr>c_index = 0, c_start = 0, c_end = 5242880, c_status = C_UPLOADING, c_attempts = 1\<rparr>,
                    \<lparr>c_index = 1, c_start = 5242880, c_end = 10485760, c_status = C_UPLOADING, c_attempts = 0\<rparr>,
                    \<lparr>c_index = 2, c_start = 10485760, c_end = 15728640, c_status = C_UPLOADING, c_attempts = 0\<rparr>,
                    \<lparr>c_index = 3, c_start = 15728640, c_end = 20971520, c_status = C_UPLOADING, c_attempts = 0\<rparr>],
            clock = 2000, init_pending = 0, inflight = [1, 2, 3, 0],
            timers = [], finalize_pending = 0\<rparr>"
  have s1: "step CallStart ?e0 = Some ?e1"
    by (simp add: engine_defs Let_def upt_0_4)
  have s2: "step (InitOk 1 []) ?e1 = Some ?e2"
    by (simp add: engine_defs Let_def upt_0_4)
  have s3: "step (PutFails 0) ?e2 = Some ?e3"
    by (simp add: engine_defs Let_def upt_0_4)
  have s4: "step (PutSucceeds 0) ?e3 = Some ?e4"
    by (simp add: engine_defs Let_def upt_0_4)
  have s5: "step (Tick 2000) ?e4 = Some ?e5"
    by (simp add: engine_defs Let_def upt_0_4)
  have s6: "step (TimerFires 0) ?e5 = Some ?e6"
    by (simp add: engine_defs Let_def upt_0_4)
  have e0: "new_FileUploader (4 * CHUNK_SIZE) = ?e0"
    by (simp add: new_FileUploader_def Math_ceil_div_eq CHUNK_SIZE_def)
  show ?thesis
    by (simp only: e0 run_events.simps s1 s2 s3 s4 s5 s6 option.case option.map)
       (simp add: uploading_chunks_def)
qed

text \<open>C2. A file of one chunk. The first PUT fails at time 0: the retry timer is set for
  2000 ms, and in the same step the scheduler sends the chunk again. At time 0 the chunk is
  UPLOADING with one failed attempt, its PUT is in flight, and the timer is still pending.\<close>

theorem retry_sent_before_backoff:
  "map_option (\<lambda>e. (map c_status (heap e), map c_attempts (heap e), inflight e, timers e, clock e))
     (run_events [CallStart, InitOk 1 [], PutFails 0] (new_FileUploader 100))
   = Some ([C_UPLOADING], [1], [0], [(2000, 0)], 0)"
proof -
  let ?e0 = "\<lparr>file_size = 100, chunkSize = 5242880, totalChunks = 1, uploadId = None,
            chunks = [], activeUploads = 0, status = E_IDLE, startTime = None,
            uploadedBytes = 0,
            heap = [],
            clock = 0, init_pending = 0, inflight = [],
            timers = [], finalize_pending = 0\<rparr>"
  let ?e1 = "\<lparr>file_size = 100, chunkSize = 5242880, totalChunks = 1, uploadId = None,
            chunks = [], activeUploads = 0, status = E_UPLOADING, startTime = Some 0,
            uploadedBytes = 0,
            heap = [],
            clock = 0, init_pending = 1, inflight = [],
            timers = [], finalize_pending = 0\<rparr>"
  let ?e2 = "\<lparr>file_size = 100, chunkSize = 5242880, totalChunks = 1, uploadId = Some 1,
            chunks = [0], activeUploads = 1, status = E_UPLOADING, startTime = Some 0,
            uploadedBytes = 0,
            heap = [\<lparr>c_index = 0, c_start = 0, c_end = 100, c_status = C_UPLOADING, c_attempts = 0\<rparr>],
            clock = 0, init_pending = 0, inflight = [0],
            timers = [], finalize_pending = 0\<rparr>"
  let ?e3 = "\<lparr>file_size = 100, chunkSize = 5242880, totalChunks = 1, uploadId = Some 1,
            chunks = [0], activeUploads = 1, status = E_UPLOADING, startTime = Some 0,
            uploadedBytes = 0,
            heap = [\<lparr>c_index = 0, c_start = 0, c_end = 100, c_status = C_UPLOADING, c_attempts = 1\<rparr>],
            clock = 0, init_pending = 0, inflight = [0],
            timers = [(2000, 0)], finalize_pending = 0\<rparr>"
  have s1: "step CallStart ?e0 = Some ?e1"
    by (simp add: engine_defs Let_def)
  have s2: "step (InitOk 1 []) ?e1 = Some ?e2"
    by (simp add: engine_defs Let_def)
  have s3: "step (PutFails 0) ?e2 = Some ?e3"
    by (simp add: engine_defs Let_def)
  have e0: "new_FileUploader 100 = ?e0"
    by (simp add: new_FileUploader_def Math_ceil_div_eq CHUNK_SIZE_def)
  show ?thesis
    by (simp only: e0 run_events.simps s1 s2 s3 option.case option.map prod.inject list.map
          chunk.simps uploader.simps)
qed

section \<open>Server: streaming digest\<close>

lemma concat_stream_chunks: "0 < n \<Longrightarrow> concat (stream_chunks n bs) = bs"
  by (induction n bs rule: stream_chunks.induct) simp

lemma foldl_append_concat: "foldl (\<lambda>acc d. acc @ d) a ps = a @ concat ps"
  by (induction ps arbitrary: a) simp_all

lemma hash_stream_whole: "hash_stream L (stream_chunks highWaterMark bs) = to_hex (sha256 L bs)"
  by (simp add: hash_stream_def foldl_append_concat concat_stream_chunks highWaterMark_def
           del: stream_chunks.simps)

subsection \<open>The hex encoding\<close>

lemma hex_digit_lower: "d < 16 \<Longrightarrow> hex_digit d \<in> set ''0123456789abcdef''"
  unfolding hex_digit_def by (rule nth_mem) simp

lemma unat_byte_less: "unat (b :: byte) < 256"
  using unsigned_less[of b, where ?'a = nat] by simp

lemma unat_byte_div: "unat (b :: byte) div 16 < 16"
  using unat_byte_less[of b] by simp

lemma to_hex_Cons:
  "to_hex (b # bs) = hex_digit (unat b div 16) # hex_digit (unat b mod 16) # to_hex bs"
  by (simp add: to_hex_def)

lemma to_hex_lower: "lowercase_hex (to_hex bs)"
proof (induction bs)
  case Nil
  show ?case by (simp add: to_hex_def lowercase_hex_def)
next
  case (Cons b bs)
  have "hex_digit (unat b div 16) \<in> set ''0123456789abcdef''"
    by (rule hex_digit_lower) (rule unat_byte_div)
  moreover have "hex_digit (unat b mod 16) \<in> set ''0123456789abcdef''"
    by (rule hex_digit_lower) simp
  ultimately show ?case
    using Cons unfolding to_hex_Cons lowercase_hex_def by (simp del: set_simps)
qed

lemma to_hex_length: "length (to_hex bs) = 2 * length bs"
  by (induction bs) (simp_all add: to_hex_def)

lemma empty_blob_hash:
  "to_hex (sha256 empty_blob_libs bs)
     = ''e3b0c44298fc1c149afbf4c8996fb92427ae41e4649b934ca495991b7852b855''"
  by (simp add: empty_blob_libs_def to_hex_def hex_digit_def)

lemma empty_blob_zip:
  "zipContent (yauzl_read empty_blob_libs bs) = [''(Not a valid ZIP archive)'']"
  by (simp add: empty_blob_libs_def)

subsection \<open>The decimal text of an id\<close>

lemma show_nat_1: "show_nat 1 = ''1''"
  by (subst show_nat.simps) simp

lemma show_nat_Suc_0: "show_nat (Suc 0) = ''1''"
  by (subst show_nat.simps) simp

section \<open>Server: finalize\<close>

lemma set_status_twice: "set_status uid b (set_status uid a rows) = set_status uid b rows"
  by (induction rows) (simp_all add: set_status_def)

lemma status_after_set:
  "map u_status (filter (\<lambda>r. u_id r = uid)
       (map (\<lambda>r. if u_id r = uid then r\<lparr>u_status := st\<rparr> else r) rows))
     = map (\<lambda>r. st) (filter (\<lambda>r. u_id r = uid) rows)"
  by (induction rows) simp_all

lemma status_after_finish:
  "map (\<lambda>r. (u_status r, u_final_hash r)) (filter (\<lambda>r. u_id r = uid)
       (map (\<lambda>r. if u_id r = uid then r\<lparr>u_status := st, u_final_hash := h\<rparr> else r) rows))
     = map (\<lambda>r. (st, h)) (filter (\<lambda>r. u_id r = uid) rows)"
  by (induction rows) simp_all

lemma finalizeUpload_locks:
  assumes "filter (\<lambda>r. u_id r = f_uploadId req) (uploads s) = upload # rest"
    and "u_status upload \<noteq> COMPLETED" and "u_status upload \<noteq> PROCESSING"
  shows "finalizeUpload req s =
           (None, s\<lparr>uploads := set_status (f_uploadId req) PROCESSING (uploads s),
                    jobs := jobs s @ [(f_uploadId req, f_clientHash req)]\<rparr>)"
  using assms by (simp add: finalizeUpload_def)

lemma finalize_request_locked:
  assumes "filter (\<lambda>r. u_id r = f_uploadId req) (uploads s) = upload # rest"
    and "u_status upload \<noteq> COMPLETED" and "u_status upload \<noteq> PROCESSING"
  shows "finalize_request L e req s =
           stream_done L e (f_uploadId req, f_clientHash req)
             (s\<lparr>uploads := set_status (f_uploadId req) PROCESSING (uploads s)\<rparr>)"
  by (simp add: finalize_request_def finalizeUpload_locks[OF assms])

lemma stream_done_hash:
  assumes "blobs s uid = Some bs"
  shows "stream_done L False (uid, c) s =
           (if truthy c \<and> c \<noteq> Some (JStr (to_hex (sha256 L bs)))
            then ((400, JObj [(''error'', JStr ''Hash mismatch''),
                              (''serverHash'', JStr (to_hex (sha256 L bs))),
                              (''clientHash'', (case c of None \<Rightarrow> JNull | Some v \<Rightarrow> v))]),
                  s\<lparr>uploads := set_status uid FAILED (uploads s)\<rparr>)
            else finish uid (to_hex (sha256 L bs)) (zipContent (yauzl_read L bs)) s)"
  using assms by (simp add: stream_done_def hash_stream_whole Let_def del: stream_chunks.simps)

lemma finish_after_lock:
  "finish uid h es (s\<lparr>uploads := set_status uid PROCESSING (uploads s)\<rparr>) =
     ((200, JObj [(''status'', JStr ''COMPLETED''), (''uploadId'', JStr (show_nat uid)),
                  (''hash'', JStr h), (''zipContent'', JArr (map JStr es))]),
      s\<lparr>uploads := map (\<lambda>r. if u_id r = uid
                             then r\<lparr>u_status := COMPLETED, u_final_hash := Some h\<rparr>
                             else r) (uploads s)\<rparr>)"
  by (simp add: finish_def set_status_def comp_def if_distrib cong: if_cong)

lemma finalize_request_completes:
  assumes "filter (\<lambda>r. u_id r = f_uploadId req) (uploads s) = upload # rest"
    and "u_status upload \<noteq> COMPLETED" and "u_status upload \<noteq> PROCESSING"
    and "blobs s (f_uploadId req) = Some bs"
    and "\<not> truthy (f_clientHash req) \<or> f_clientHash req = Some (JStr (to_hex (sha256 L bs)))"
  shows "finalize_request L False req s =
           ((200, JObj [(''status'', JStr ''COMPLETED''),
                        (''uploadId'', JStr (show_nat (f_uploadId req))),
                        (''hash'', JStr (to_hex (sha256 L bs))),
                        (''zipContent'', JArr (map JStr (zipContent (yauzl_read L bs))))]),
            s\<lparr>uploads := map (\<lambda>r. if u_id r = f_uploadId req
                                   then r\<lparr>u_status := COMPLETED,
                                          u_final_hash := Some (to_hex (sha256 L bs))\<rparr>
                                   else r) (uploads s)\<rparr>)"
proof -
  have blob: "blobs (s\<lparr>uploads := set_status (f_uploadId req) PROCESSING (uploads s)\<rparr>)
                (f_uploadId req) = Some bs"
    using assms(4) by simp
  show ?thesis
    unfolding finalize_request_locked[OF assms(1-3)] stream_done_hash[OF blob]
    using assms(5) by (auto simp add: finish_after_lock)
qed

lemma finalize_request_mismatch:
  assumes "filter (\<lambda>r. u_id r = f_uploadId req) (uploads s) = upload # rest"
    and "u_status upload \<noteq> COMPLETED" and "u_status upload \<noteq> PROCESSING"
    and "blobs s (f_uploadId req) = Some bs"
    and "f_clientHash req = Some c" and "truthy (Some c)" and "c \<noteq> JStr (to_hex (sha256 L bs))"
  shows "finalize_request L False req s =
           ((400, JObj [(''error'', JStr ''Hash mismatch''),
                        (''serverHash'', JStr (to_hex (sha256 L bs))), (''clientHash'', c)]),
            s\<lparr>uploads := map (\<lambda>r. if u_id r = f_uploadId req then r\<lparr>u_status := FAILED\<rparr> else r)
                            (uploads s)\<rparr>)"
proof -
  have blob: "blobs (s\<lparr>uploads := set_status (f_uploadId req) PROCESSING (uploads s)\<rparr>)
                (f_uploadId req) = Some bs"
    using assms(4) by simp
  have twice: "set_status (f_uploadId req) FAILED (set_status (f_uploadId req) PROCESSING (uploads s))
      = map (\<lambda>r. if u_id r = f_uploadId req then r\<lparr>u_status := FAILED\<rparr> else r) (uploads s)"
    unfolding set_status_twice by (simp add: set_status_def)
  show ?thesis
    unfolding finalize_request_locked[OF assms(1-3)] stream_done_hash[OF blob]
    using assms(5-7) by (simp add: twice)
qed

subsection \<open>The example states\<close>

lemma fresh_upload_eq:
  "fresh_upload =
     \<lparr>uploads = [\<lparr>u_id = 1, u_filename = ''a.bin'', u_total_size = 12582912, u_total_chunks = 3,
                   u_status = UPLOADING, u_final_hash = None, u_created_at = 0\<rparr>],
      chunk_rows = [], blobs = [1 \<mapsto> []], next_id = 2, jobs = []\<rparr>"
  by (simp add: fresh_upload_def initiateUpload_def example_init_def empty_server_def ensureFile_def)

lemma fresh_upload_row:
  "filter (\<lambda>r. u_id r = 1) (uploads fresh_upload) =
     \<lparr>u_id = 1, u_filename = ''a.bin'', u_total_size = 12582912, u_total_chunks = 3,
      u_status = UPLOADING, u_final_hash = None, u_created_at = 0\<rparr> # []"
  by (simp add: fresh_upload_eq)

lemma completed_upload_eq:
  "completed_upload =
     \<lparr>uploads = [\<lparr>u_id = 1, u_filename = ''a.bin'', u_total_size = 12582912, u_total_chunks = 3,
                   u_status = COMPLETED,
                   u_final_hash = Some ''e3b0c44298fc1c149afbf4c8996fb92427ae41e4649b934ca495991b7852b855'',
                   u_created_at = 0\<rparr>],
      chunk_rows = [], blobs = [1 \<mapsto> []], next_id = 2, jobs = []\<rparr>"
  unfolding completed_upload_def
  by (subst finalize_request_locked[OF _ _ _, where upload = "hd (uploads fresh_upload)" and rest = "[]"])
     (simp_all add: fresh_upload_eq stream_done_hash finish_def set_status_def empty_blob_hash)

subsection \<open>Claims about finalize\<close>

text \<open>C4, as amended. For every upload whose status is COMPLETED, a further finalize
  request is answered 200 with the body \<open>{status: "COMPLETED", message: "Already completed"}\<close>,
  which carries neither the stored hash nor the entry list, and the server state (Upload
  and Chunk records, blobs) is left unchanged.\<close>

theorem repeated_finalize_already_completed:
  assumes "filter (\<lambda>r. u_id r = f_uploadId req) (uploads s) = upload # rest"
    and "u_status upload = COMPLETED"
  shows "finalize_request L e req s =
           ((200, JObj [(''status'', JStr ''COMPLETED''), (''message'', JStr ''Already completed'')]), s)"
  using assms by (simp add: finalize_request_def finalizeUpload_def)

text \<open>The completed example upload, finalized again.\<close>

theorem repeated_finalize_already_completed_witness:
  "finalize_request empty_blob_libs False \<lparr>f_uploadId = 1, f_clientHash = None\<rparr> completed_upload =
     ((200, JObj [(''status'', JStr ''COMPLETED''), (''message'', JStr ''Already completed'')]),
      completed_upload)"
  using repeated_finalize_already_completed
          [of "\<lparr>f_uploadId = 1, f_clientHash = None\<rparr>" completed_upload
              "hd (uploads completed_upload)" "[]" empty_blob_libs False]
  by (simp add: completed_upload_eq)

text \<open>C4 as stated fails: the example upload is COMPLETED with a stored hash, and the
  answer to a repeated finalize has no \<open>hash\<close> field.\<close>

theorem repeated_finalize_no_hash_counterexample:
  "u_final_hash (hd (uploads completed_upload))
     = Some ''e3b0c44298fc1c149afbf4c8996fb92427ae41e4649b934ca495991b7852b855''
   \<and> fst (finalize_request empty_blob_libs False \<lparr>f_uploadId = 1, f_clientHash = None\<rparr> completed_upload)
     = (200, JObj [(''status'', JStr ''COMPLETED''), (''message'', JStr ''Already completed'')])
   \<and> map_of [(''status'', JStr ''COMPLETED''), (''message'', JStr ''Already completed'')] ''hash'' = None"
  by (simp add: completed_upload_eq finalize_request_def finalizeUpload_def)

text \<open>C9, as amended. Take a finalize request that reaches the hash step: the upload
  exists, is neither COMPLETED nor PROCESSING, and its blob is read without error. The
  server hash is the lowercase-hex SHA-256 digest of the whole blob: the hex encoding, two
  characters of \<open>0123456789abcdef\<close> for each byte, of the digest of the blob's bytes, which
  is what the streaming computation over the pieces of the read stream yields. If the
  request carries a \<open>clientHash\<close> that is truthy (in particular a non-empty string) and
  differs from the server hash, the answer is 400 with \<open>error: "Hash mismatch"\<close>,
  \<open>serverHash\<close> and \<open>clientHash\<close>, and in the resulting state the status of the upload is
  FAILED, nothing else being changed. If it equals the server hash, the answer is 200 with
  \<open>status: "COMPLETED"\<close>, the \<open>uploadId\<close> of the URL (a string), that hash and the entry
  list, and in the resulting state the status of the upload is COMPLETED and its
  \<open>final_hash\<close> the server hash, nothing else being changed.\<close>

theorem hash_verification:
  assumes "filter (\<lambda>r. u_id r = f_uploadId req) (uploads s) = upload # rest"
    and "u_status upload \<noteq> COMPLETED" and "u_status upload \<noteq> PROCESSING"
    and "blobs s (f_uploadId req) = Some bs"
    and "f_clientHash req = Some c" and "truthy (Some c)"
  shows "hash_stream L (stream_chunks highWaterMark bs) = to_hex (sha256 L bs)
       \<and> lowercase_hex (to_hex (sha256 L bs))
       \<and> length (to_hex (sha256 L bs)) = 2 * length (sha256 L bs)
       \<and> (c \<noteq> JStr (to_hex (sha256 L bs)) \<longrightarrow>
            finalize_request L False req s =
              ((400, JObj [(''error'', JStr ''Hash mismatch''),
                           (''serverHash'', JStr (to_hex (sha256 L bs))), (''clientHash'', c)]),
               s\<lparr>uploads := map (\<lambda>r. if u_id r = f_uploadId req then r\<lparr>u_status := FAILED\<rparr> else r)
                               (uploads s)\<rparr>)
            \<and> map u_status (filter (\<lambda>r. u_id r = f_uploadId req)
                  (uploads (snd (finalize_request L False req s))))
                = map (\<lambda>r. FAILED) (upload # rest))
       \<and> (c = JStr (to_hex (sha256 L bs)) \<longrightarrow>
            finalize_request L False req s =
              ((200, JObj [(''status'', JStr ''COMPLETED''),
                           (''uploadId'', JStr (show_nat (f_uploadId req))),
                           (''hash'', JStr (to_hex (sha256 L bs))),
                           (''zipContent'', JArr (map JStr (zipContent (yauzl_read L bs))))]),
               s\<lparr>uploads := map (\<lambda>r. if u_id r = f_uploadId req
                                      then r\<lparr>u_status := COMPLETED,
                                             u_final_hash := Some (to_hex (sha256 L bs))\<rparr>
                                      else r) (uploads s)\<rparr>)
            \<and> map (\<lambda>r. (u_status r, u_final_hash r)) (filter (\<lambda>r. u_id r = f_uploadId req)
                  (uploads (snd (finalize_request L False req s))))
                = map (\<lambda>r. (COMPLETED, Some (to_hex (sha256 L bs)))) (upload # rest))"
proof -
  have mismatch: "finalize_request L False req s =
              ((400, JObj [(''error'', JStr ''Hash mismatch''),
                           (''serverHash'', JStr (to_hex (sha256 L bs))), (''clientHash'', c)]),
               s\<lparr>uploads := map (\<lambda>r. if u_id r = f_uploadId req then r\<lparr>u_status := FAILED\<rparr> else r)
                               (uploads s)\<rparr>)"
    if "c \<noteq> JStr (to_hex (sha256 L bs))"
    using finalize_request_mismatch[OF assms(1-6) that] .
  have mismatch_status: "map u_status (filter (\<lambda>r. u_id r = f_uploadId req)
                  (uploads (snd (finalize_request L False req s))))
                = map (\<lambda>r. FAILED) (upload # rest)"
    if "c \<noteq> JStr (to_hex (sha256 L bs))"
    unfolding mismatch[OF that] using assms(1) by (simp add: status_after_set)
  have match: "finalize_request L False req s =
              ((200, JObj [(''status'', JStr ''COMPLETED''),
                           (''uploadId'', JStr (show_nat (f_uploadId req))),
                           (''hash'', JStr (to_hex (sha256 L bs))),
                           (''zipContent'', JArr (map JStr (zipContent (yauzl_read L bs))))]),
               s\<lparr>uploads := map (\<lambda>r. if u_id r = f_uploadId req
                                      then r\<lparr>u_status := COMPLETED,
                                             u_final_hash := Some (to_hex (sha256 L bs))\<rparr>
                                      else r) (uploads s)\<rparr>)"
    if "c = JStr (to_hex (sha256 L bs))"
    using finalize_request_completes[OF assms(1-4), of L] assms(5) that by simp
  have match_status: "map (\<lambda>r. (u_status r, u_final_hash r)) (filter (\<lambda>r. u_id r = f_uploadId req)
                  (uploads (snd (finalize_request L False req s))))
                = map (\<lambda>r. (COMPLETED, Some (to_hex (sha256 L bs)))) (upload # rest)"
    if "c = JStr (to_hex (sha256 L bs))"
    unfolding match[OF that] using assms(1) by (simp add: status_after_finish)
  from mismatch mismatch_status match match_status
  show ?thesis
    using hash_stream_whole[of L bs] to_hex_lower[of "sha256 L bs"] to_hex_length[of "sha256 L bs"]
    by blast
qed

text \<open>Both branches on the example upload: a \<open>clientHash\<close> of 64 zeros, and the right one.\<close>

theorem hash_verification_witness:
  "finalize_request empty_blob_libs False \<lparr>f_uploadId = 1, f_clientHash = Some (JStr zeros_hash)\<rparr>
      fresh_upload =
     ((400, JObj [(''error'', JStr ''Hash mismatch''),
                  (''serverHash'', JStr ''e3b0c44298fc1c149afbf4c8996fb92427ae41e4649b934ca495991b7852b855''),
                  (''clientHash'', JStr zeros_hash)]),
      \<lparr>uploads = [\<lparr>u_id = 1, u_filename = ''a.bin'', u_total_size = 12582912, u_total_chunks = 3,
                   u_status = FAILED, u_final_hash = None, u_created_at = 0\<rparr>],
       chunk_rows = [], blobs = [1 \<mapsto> []], next_id = 2, jobs = []\<rparr>)
   \<and> finalize_request empty_blob_libs False
      \<lparr>f_uploadId = 1,
       f_clientHash = Some (JStr ''e3b0c44298fc1c149afbf4c8996fb92427ae41e4649b934ca495991b7852b855'')\<rparr>
      fresh_upload =
     ((200, JObj [(''status'', JStr ''COMPLETED''), (''uploadId'', JStr ''1''),
                  (''hash'', JStr ''e3b0c44298fc1c149afbf4c8996fb92427ae41e4649b934ca495991b7852b855''),
                  (''zipContent'', JArr [JStr ''(Not a valid ZIP archive)''])]),
      \<lparr>uploads = [\<lparr>u_id = 1, u_filename = ''a.bin'', u_total_size = 12582912, u_total_chunks = 3,
                   u_status = COMPLETED,
                   u_final_hash = Some ''e3b0c44298fc1c149afbf4c8996fb92427ae41e4649b934ca495991b7852b855'',
                   u_created_at = 0\<rparr>],
       chunk_rows = [], blobs = [1 \<mapsto> []], next_id = 2, jobs = []\<rparr>)
   \<and> lowercase_hex ''e3b0c44298fc1c149afbf4c8996fb92427ae41e4649b934ca495991b7852b855''"
proof -
  let ?h = "''e3b0c44298fc1c149afbf4c8996fb92427ae41e4649b934ca495991b7852b855''"
  let ?row = "\<lparr>u_id = 1, u_filename = ''a.bin'', u_total_size = 12582912, u_total_chunks = 3,
      u_status = UPLOADING, u_final_hash = None, u_created_at = 0\<rparr>"
  let ?bad = "\<lparr>f_uploadId = 1, f_clientHash = Some (JStr zeros_hash)\<rparr>"
  let ?good = "\<lparr>f_uploadId = 1, f_clientHash = Some (JStr ?h)\<rparr>"
  have st: "u_status ?row \<noteq> COMPLETED" "u_status ?row \<noteq> PROCESSING"
    by simp_all
  have zip: "zipContent (yauzl_read empty_blob_libs []) = [''(Not a valid ZIP archive)'']"
    by (simp add: empty_blob_libs_def)
  have row_bad: "filter (\<lambda>r. u_id r = f_uploadId ?bad) (uploads fresh_upload) = ?row # []"
    by (simp add: fresh_upload_eq)
  have blob_bad: "blobs fresh_upload (f_uploadId ?bad) = Some []"
    by (simp add: fresh_upload_eq)
  have hash_bad: "f_clientHash ?bad = Some (JStr zeros_hash)"
    by simp
  have truthy_bad: "truthy (Some (JStr zeros_hash))"
    by (simp add: zeros_hash_def)
  have differs: "JStr zeros_hash \<noteq> JStr ?h"
    by (simp add: zeros_hash_def)
  note bad = hash_verification[OF row_bad st blob_bad hash_bad truthy_bad, of empty_blob_libs,
               unfolded empty_blob_hash]
  have a: "finalize_request empty_blob_libs False ?bad fresh_upload =
           ((400, JObj [(''error'', JStr ''Hash mismatch''), (''serverHash'', JStr ?h),
                        (''clientHash'', JStr zeros_hash)]),
            fresh_upload\<lparr>uploads := map (\<lambda>r. if u_id r = f_uploadId ?bad
                                             then r\<lparr>u_status := FAILED\<rparr> else r)
                                       (uploads fresh_upload)\<rparr>)"
    using bad differs by blast
  have c: "lowercase_hex ?h"
    using bad by blast
  have row_good: "filter (\<lambda>r. u_id r = f_uploadId ?good) (uploads fresh_upload) = ?row # []"
    by (simp add: fresh_upload_eq)
  have blob_good: "blobs fresh_upload (f_uploadId ?good) = Some []"
    by (simp add: fresh_upload_eq)
  have hash_good: "f_clientHash ?good = Some (JStr ?h)"
    by simp
  have truthy_good: "truthy (Some (JStr ?h))"
    by simp
  note good = hash_verification[OF row_good st blob_good hash_good truthy_good, of empty_blob_libs,
               unfolded empty_blob_hash zip]
  have b: "finalize_request empty_blob_libs False ?good fresh_upload =
           ((200, JObj [(''status'', JStr ''COMPLETED''),
                        (''uploadId'', JStr (show_nat (f_uploadId ?good))),
                        (''hash'', JStr ?h),
                        (''zipContent'', JArr (map JStr [''(Not a valid ZIP archive)'']))]),
            fresh_upload\<lparr>uploads := map (\<lambda>r. if u_id r = f_uploadId ?good
                                   then r\<lparr>u_status := COMPLETED, u_final_hash := Some ?h\<rparr>
                                   else r) (uploads fresh_upload)\<rparr>)"
    using good by blast
  have a': "finalize_request empty_blob_libs False ?bad fresh_upload =
     ((400, JObj [(''error'', JStr ''Hash mismatch''), (''serverHash'', JStr ?h),
                  (''clientHash'', JStr zeros_hash)]),
      \<lparr>uploads = [\<lparr>u_id = 1, u_filename = ''a.bin'', u_total_size = 12582912, u_total_chunks = 3,
                   u_status = FAILED, u_final_hash = None, u_created_at = 0\<rparr>],
       chunk_rows = [], blobs = [1 \<mapsto> []], next_id = 2, jobs = []\<rparr>)"
    unfolding a by (simp add: fresh_upload_eq)
  have b': "finalize_request empty_blob_libs False ?good fresh_upload =
     ((200, JObj [(''status'', JStr ''COMPLETED''), (''uploadId'', JStr ''1''),
                  (''hash'', JStr ?h),
                  (''zipContent'', JArr [JStr ''(Not a valid ZIP archive)''])]),
      \<lparr>uploads = [\<lparr>u_id = 1, u_filename = ''a.bin'', u_total_size = 12582912, u_total_chunks = 3,
                   u_status = COMPLETED, u_final_hash = Some ?h, u_created_at = 0\<rparr>],
       chunk_rows = [], blobs = [1 \<mapsto> []], next_id = 2, jobs = []\<rparr>)"
    unfolding b by (simp add: fresh_upload_eq show_nat_1 show_nat_Suc_0)
  from a' b' c show ?thesis
    by (rule conjI[OF _ conjI])
qed

text \<open>C9 as stated fails for a \<open>clientHash\<close> that is supplied as the empty string: it
  differs from the server hash, yet the upload is completed and the answer is 200.\<close>

theorem hash_verification_empty_string_counterexample:
  "JStr [] \<noteq> JStr (to_hex (sha256 empty_blob_libs []))
   \<and> finalize_request empty_blob_libs False \<lparr>f_uploadId = 1, f_clientHash = Some (JStr [])\<rparr>
        fresh_upload =
       ((200, JObj [(''status'', JStr ''COMPLETED''), (''uploadId'', JStr ''1''),
                    (''hash'', JStr ''e3b0c44298fc1c149afbf4c8996fb92427ae41e4649b934ca495991b7852b855''),
                    (''zipContent'', JArr [JStr ''(Not a valid ZIP archive)''])]),
        \<lparr>uploads = [\<lparr>u_id = 1, u_filename = ''a.bin'', u_total_size = 12582912, u_total_chunks = 3,
                     u_status = COMPLETED,
                     u_final_hash = Some ''e3b0c44298fc1c149afbf4c8996fb92427ae41e4649b934ca495991b7852b855'',
                     u_created_at = 0\<rparr>],
         chunk_rows = [], blobs = [1 \<mapsto> []], next_id = 2, jobs = []\<rparr>)"
proof -
  have blob: "blobs fresh_upload 1 = Some []"
    by (simp add: fresh_upload_eq)
  have zip: "zipContent (yauzl_read empty_blob_libs []) = [''(Not a valid ZIP archive)'']"
    by (simp add: empty_blob_libs_def)
  from finalize_request_completes
         [of "\<lparr>f_uploadId = 1, f_clientHash = Some (JStr [])\<rparr>" fresh_upload
             "hd (uploads fresh_upload)" "[]" "[]" empty_blob_libs]
       blob
  have "finalize_request empty_blob_libs False \<lparr>f_uploadId = 1, f_clientHash = Some (JStr [])\<rparr>
          fresh_upload =
        ((200, JObj [(''status'', JStr ''COMPLETED''), (''uploadId'', JStr (show_nat 1)),
                     (''hash'', JStr (to_hex (sha256 empty_blob_libs []))),
                     (''zipContent'', JArr (map JStr (zipContent (yauzl_read empty_blob_libs []))))]),
         fresh_upload\<lparr>uploads := map (\<lambda>r. if u_id r = 1
                                   then r\<lparr>u_status := COMPLETED,
                                          u_final_hash := Some (to_hex (sha256 empty_blob_libs []))\<rparr>
                                   else r) (uploads fresh_upload)\<rparr>)"
    by (simp add: fresh_upload_eq)
  then show ?thesis
    unfolding empty_blob_hash zip show_nat_1
    by (simp add: fresh_upload_eq)
qed

text \<open>C10. A finalize request whose \<open>clientHash\<close> is the empty string is served exactly
  as the same request without \<open>clientHash\<close>: same response, same resulting state. When the
  request reaches the hash step (upload found, neither COMPLETED nor PROCESSING, blob
  readable) the upload is set to COMPLETED with the server hash and the answer is 200 with
  \<open>status: "COMPLETED"\<close>, the \<open>uploadId\<close> of the URL (a string), the server hash and the
  entry list.\<close>

theorem empty_clientHash_skips_verification:
  "finalize_request L e (req\<lparr>f_clientHash := Some (JStr [])\<rparr>) s
     = finalize_request L e (req\<lparr>f_clientHash := None\<rparr>) s
   \<and> (filter (\<lambda>r. u_id r = f_uploadId req) (uploads s) = upload # rest
        \<and> u_status upload \<noteq> COMPLETED \<and> u_status upload \<noteq> PROCESSING
        \<and> blobs s (f_uploadId req) = Some bs
      \<longrightarrow> finalize_request L False (req\<lparr>f_clientHash := Some (JStr [])\<rparr>) s =
            ((200, JObj [(''status'', JStr ''COMPLETED''),
                         (''uploadId'', JStr (show_nat (f_uploadId req))),
                         (''hash'', JStr (to_hex (sha256 L bs))),
                         (''zipContent'', JArr (map JStr (zipContent (yauzl_read L bs))))]),
             s\<lparr>uploads := map (\<lambda>r. if u_id r = f_uploadId req
                                    then r\<lparr>u_status := COMPLETED,
                                           u_final_hash := Some (to_hex (sha256 L bs))\<rparr>
                                    else r) (uploads s)\<rparr>)
          \<and> map (\<lambda>r. (u_status r, u_final_hash r)) (filter (\<lambda>r. u_id r = f_uploadId req)
                (uploads (snd (finalize_request L False (req\<lparr>f_clientHash := Some (JStr [])\<rparr>) s))))
              = map (\<lambda>r. (COMPLETED, Some (to_hex (sha256 L bs)))) (upload # rest))"
proof -
  have same: "finalize_request L e (req\<lparr>f_clientHash := Some (JStr [])\<rparr>) s
     = finalize_request L e (req\<lparr>f_clientHash := None\<rparr>) s"
    by (simp add: finalize_request_def finalizeUpload_def stream_done_def Let_def
           split: list.split option.split del: stream_chunks.simps)
  have completes: "finalize_request L False (req\<lparr>f_clientHash := Some (JStr [])\<rparr>) s =
            ((200, JObj [(''status'', JStr ''COMPLETED''),
                         (''uploadId'', JStr (show_nat (f_uploadId req))),
                         (''hash'', JStr (to_hex (sha256 L bs))),
                         (''zipContent'', JArr (map JStr (zipContent (yauzl_read L bs))))]),
             s\<lparr>uploads := map (\<lambda>r. if u_id r = f_uploadId req
                                    then r\<lparr>u_status := COMPLETED,
                                           u_final_hash := Some (to_hex (sha256 L bs))\<rparr>
                                    else r) (uploads s)\<rparr>)"
    if row: "filter (\<lambda>r. u_id r = f_uploadId req) (uploads s) = upload # rest"
      and st: "u_status upload \<noteq> COMPLETED" "u_status upload \<noteq> PROCESSING"
      and blob: "blobs s (f_uploadId req) = Some bs"
    using finalize_request_completes[of "req\<lparr>f_clientHash := Some (JStr [])\<rparr>" s upload rest bs L]
          row st blob
    by simp
  have status: "map (\<lambda>r. (u_status r, u_final_hash r)) (filter (\<lambda>r. u_id r = f_uploadId req)
                (uploads (snd (finalize_request L False (req\<lparr>f_clientHash := Some (JStr [])\<rparr>) s))))
              = map (\<lambda>r. (COMPLETED, Some (to_hex (sha256 L bs)))) (upload # rest)"
    if row: "filter (\<lambda>r. u_id r = f_uploadId req) (uploads s) = upload # rest"
      and st: "u_status upload \<noteq> COMPLETED" "u_status upload \<noteq> PROCESSING"
      and blob: "blobs s (f_uploadId req) = Some bs"
    unfolding completes[OF row st blob] using row by (simp add: status_after_finish)
  from same completes status show ?thesis by blast
qed

text \<open>On the example upload both requests give the same result: the answer 200 with the
  \<open>uploadId\<close> \<open>"1"\<close>, and the upload COMPLETED.\<close>

theorem empty_clientHash_skips_verification_witness:
  "finalize_request empty_blob_libs False \<lparr>f_uploadId = 1, f_clientHash = Some (JStr [])\<rparr>
      fresh_upload
     = finalize_request empty_blob_libs False \<lparr>f_uploadId = 1, f_clientHash = None\<rparr> fresh_upload
   \<and> finalize_request empty_blob_libs False \<lparr>f_uploadId = 1, f_clientHash = Some (JStr [])\<rparr>
        fresh_upload =
       ((200, JObj [(''status'', JStr ''COMPLETED''), (''uploadId'', JStr ''1''),
                    (''hash'', JStr ''e3b0c44298fc1c149afbf4c8996fb92427ae41e4649b934ca495991b7852b855''),
                    (''zipContent'', JArr [JStr ''(Not a valid ZIP archive)''])]),
        \<lparr>uploads = [\<lparr>u_id = 1, u_filename = ''a.bin'', u_total_size = 12582912, u_total_chunks = 3,
                     u_status = COMPLETED,
                     u_final_hash = Some ''e3b0c44298fc1c149afbf4c8996fb92427ae41e4649b934ca495991b7852b855'',
                     u_created_at = 0\<rparr>],
         chunk_rows = [], blobs = [1 \<mapsto> []], next_id = 2, jobs = []\<rparr>)"
proof -
  note t = empty_clientHash_skips_verification
             [of empty_blob_libs False "\<lparr>f_uploadId = 1, f_clientHash = None\<rparr>" fresh_upload
                 "hd (uploads fresh_upload)" "[]" "[]"]
  have same:
    "finalize_request empty_blob_libs False \<lparr>f_uploadId = 1, f_clientHash = Some (JStr [])\<rparr>
        fresh_upload
     = finalize_request empty_blob_libs False \<lparr>f_uploadId = 1, f_clientHash = None\<rparr> fresh_upload"
    using t [THEN conjunct1] by simp
  have hyp: "filter (\<lambda>r. u_id r = 1) (uploads fresh_upload) = hd (uploads fresh_upload) # []
      \<and> u_status (hd (uploads fresh_upload)) \<noteq> COMPLETED
      \<and> u_status (hd (uploads fresh_upload)) \<noteq> PROCESSING
      \<and> blobs fresh_upload 1 = Some []"
    by (simp add: fresh_upload_eq)
  have zip: "zipContent (yauzl_read empty_blob_libs []) = [''(Not a valid ZIP archive)'']"
    by (simp add: empty_blob_libs_def)
  have "finalize_request empty_blob_libs False
               \<lparr>f_uploadId = 1, f_clientHash = Some (JStr [])\<rparr> fresh_upload
        = ((200, JObj [(''status'', JStr ''COMPLETED''), (''uploadId'', JStr (show_nat 1)),
                     (''hash'', JStr (to_hex (sha256 empty_blob_libs []))),
                     (''zipContent'', JArr (map JStr (zipContent (yauzl_read empty_blob_libs []))))]),
           fresh_upload\<lparr>uploads := map (\<lambda>r. if u_id r = 1
                                   then r\<lparr>u_status := COMPLETED,
                                          u_final_hash := Some (to_hex (sha256 empty_blob_libs []))\<rparr>
                                   else r) (uploads fresh_upload)\<rparr>)"
    using t [THEN conjunct2] hyp by simp
  then have "finalize_request empty_blob_libs False
               \<lparr>f_uploadId = 1, f_clientHash = Some (JStr [])\<rparr> fresh_upload
        = ((200, JObj [(''status'', JStr ''COMPLETED''), (''uploadId'', JStr ''1''),
                    (''hash'', JStr ''e3b0c44298fc1c149afbf4c8996fb92427ae41e4649b934ca495991b7852b855''),
                    (''zipContent'', JArr [JStr ''(Not a valid ZIP archive)''])]),
        \<lparr>uploads = [\<lparr>u_id = 1, u_filename = ''a.bin'', u_total_size = 12582912, u_total_chunks = 3,
                     u_status = COMPLETED,
                     u_final_hash = Some ''e3b0c44298fc1c149afbf4c8996fb92427ae41e4649b934ca495991b7852b855'',
                     u_created_at = 0\<rparr>],
         chunk_rows = [], blobs = [1 \<mapsto> []], next_id = 2, jobs = []\<rparr>)"
    unfolding empty_blob_hash zip show_nat_1
    by (simp add: fresh_upload_eq)
  with same show ?thesis by simp
qed

section \<open>Server: put-chunk\<close>

lemma fs_write_twice: "fs_write (fs_write f b p) b p = fs_write f b p"
  by (auto simp add: fs_write_def Let_def min_def)

lemma fs_write_range: "take (length b) (drop (write_position p) (fs_write f b p)) = b"
  by (simp add: fs_write_def Let_def min_def)

lemma write_position_safe:
  "0 \<le> n \<Longrightarrow> n \<le> MAX_SAFE_INTEGER \<Longrightarrow> write_position (Finite n) = nat n"
  by (simp add: write_position_def)

lemma fs_write_safe_range:
  "0 \<le> n \<Longrightarrow> n \<le> MAX_SAFE_INTEGER \<Longrightarrow>
     take (length b) (drop (nat n) (fs_write f b (Finite n))) = b"
  using fs_write_range[of b "Finite n" f] by (simp add: write_position_safe)

lemma to_double_small: "n < 2 ^ 53 \<Longrightarrow> to_double n = Some n"
  by (simp add: to_double_def excess_bits.simps)

lemma to_double_safe: "int n \<le> MAX_SAFE_INTEGER \<Longrightarrow> to_double n = Some n"
  by (rule to_double_small) (simp add: MAX_SAFE_INTEGER_def)

lemma decimal_digit_plain:
  assumes "isRadixDigit 10 c"
  shows "\<not> isWhiteSpace c" "c \<noteq> CHR ''+''" "c \<noteq> CHR ''-''" "c \<noteq> CHR ''x''" "c \<noteq> CHR ''X''"
  using assms
  by (auto simp add: isRadixDigit_def digitValue_def isWhiteSpace_def Let_def split: if_splits)

lemma x_not_decimal: "\<not> isRadixDigit 10 (CHR ''x'')" "\<not> isRadixDigit 10 (CHR ''X'')"
  by (simp_all add: isRadixDigit_def digitValue_def)

lemma parseInt_decimal:
  assumes "nonneg_integer_text v"
  shows "parseInt v = (case to_double (mathInt 10 v) of
                         None \<Rightarrow> Some PosInfinity
                       | Some m \<Rightarrow> Some (Finite (int m)))"
proof -
  from assms obtain c cs where v: "v = c # cs" and c: "isRadixDigit 10 c"
    and all: "list_all (isRadixDigit 10) v"
    by (cases v) (auto simp add: nonneg_integer_text_def)
  have S: "dropWhile isWhiteSpace v = v"
    using v decimal_digit_plain(1)[OF c] by simp
  have hex: "\<not> (case v of a # b # _ \<Rightarrow> a = CHR ''0'' \<and> (b = CHR ''x'' \<or> b = CHR ''X'') | _ \<Rightarrow> False)"
    using all by (auto simp add: x_not_decimal split: list.split)
  have Z: "takeWhile (isRadixDigit 10) v = v"
    using all by (simp add: takeWhile_eq_all_conv list_all_iff)
  show ?thesis
    unfolding parseInt_def S Let_def
    using v decimal_digit_plain(2,3)[OF c] hex Z by (simp split: option.split)
qed

lemma parseInt_decimal_number: "nonneg_integer_text v \<Longrightarrow> parseInt v \<noteq> None"
  by (simp add: parseInt_decimal split: option.split)

lemma parseInt_decimal_safe:
  "nonneg_integer_text v \<Longrightarrow> int (mathInt 10 v) \<le> MAX_SAFE_INTEGER \<Longrightarrow>
     parseInt v = Some (Finite (int (mathInt 10 v)))"
  by (simp add: parseInt_decimal to_double_safe)

lemma parseInt_header_missing: "parseInt_header None = None"
  by (simp add: parseInt_header_def parseInt_def isWhiteSpace_def isRadixDigit_def digitValue_def)

lemma filter_key_distinct:
  "distinct (map fst al) \<Longrightarrow> map_of al k = Some v \<Longrightarrow>
     filter (\<lambda>row. fst row = k) al = [(k, v)]"
proof (induction al)
  case Nil
  then show ?case by simp
next
  case (Cons a al)
  show ?case
  proof (cases "fst a = k")
    case True
    with Cons.prems have "a = (k, v)" by (cases a) simp
    moreover have "k \<notin> fst ` set al"
      using Cons.prems(1) True by simp
    then have "filter (\<lambda>row. fst row = k) al = []"
      by (auto simp add: filter_empty_conv)
    ultimately show ?thesis by simp
  next
    case False
    with Cons show ?thesis by (cases a) auto
  qed
qed

lemma ensureFile_upd: "(ensureFile uid fs)(uid \<mapsto> x) = fs(uid \<mapsto> x)"
  by (simp add: ensureFile_def split: option.split)

lemma ensureFile_read:
  "(case ensureFile uid fs uid of None \<Rightarrow> [] | Some bs \<Rightarrow> bs) = (case fs uid of None \<Rightarrow> [] | Some bs \<Rightarrow> bs)"
  by (simp add: ensureFile_def split: option.split)

lemma uploadChunk_400:
  "parseInt_header (p_offset_header p) = None \<Longrightarrow>
     uploadChunk now env p s = ((400, JObj [(''error'', JStr ''Missing X-Chunk-Offset header'')]), s)"
  by (simp add: uploadChunk_def)

lemma uploadChunk_200:
  "parseInt_header (p_offset_header p) = Some off \<Longrightarrow>
     uploadChunk now IO_ok p s =
       ((200, JObj [(''success'', JBool True)]),
        s\<lparr>blobs := (blobs s)(p_uploadId p \<mapsto>
                      fs_write (case blobs s (p_uploadId p) of None \<Rightarrow> [] | Some bs \<Rightarrow> bs)
                        (p_body p) off),
          chunk_rows := AList.update (p_uploadId p, p_chunkIndex p)
                          \<lparr>ch_status = UPLOADED, ch_received_at = now\<rparr> (chunk_rows s)\<rparr>)"
  by (simp add: uploadChunk_def Let_def ensureFile_upd ensureFile_read)

lemma uploadChunk_code:
  "fst (fst (uploadChunk now env p s)) =
     (if parseInt_header (p_offset_header p) = None then 400 else if env = IO_ok then 200 else 500)"
  by (cases env) (auto simp add: uploadChunk_def Let_def split: option.split)

subsection \<open>Some values of \<open>parseInt\<close>\<close>

lemma parseInt_3: "parseInt_header (Some ''3'') = Some (Finite 3)"
  by (simp add: parseInt_header_def parseInt_def isWhiteSpace_def isRadixDigit_def digitValue_def
        mathInt_def to_double_small)

lemma parseInt_12abc: "parseInt_header (Some ''12abc'') = Some (Finite 12)"
  by (simp add: parseInt_header_def parseInt_def isWhiteSpace_def isRadixDigit_def digitValue_def
        mathInt_def to_double_small)

lemma parseInt_examples:
  "parseInt ''abc'' = None" "parseInt ''0x'' = None" "parseInt ''-5'' = Some (Finite (- 5))"
  "parseInt '' 42'' = Some (Finite 42)" "parseInt ''0x1F'' = Some (Finite 31)"
  "parseInt ''1e3'' = Some (Finite 1)"
  by (simp_all add: parseInt_def isWhiteSpace_def isRadixDigit_def digitValue_def mathInt_def
        to_double_small)

text \<open>Beyond \<open>2 ^ 53 - 1\<close> the parsed number is the nearest double, which need not be the
  integer written, and \<open>fs.write\<close> no longer takes it as a position: the body lands at the
  start of the blob.\<close>

lemma to_double_rounds: "to_double 9007199254740993 = Some 9007199254740992"
  by (simp add: to_double_def excess_bits.simps[of 9007199254740993]
        excess_bits.simps[of 4503599627370496])

lemma parseInt_rounds: "parseInt ''9007199254740993'' = Some (Finite 9007199254740992)"
proof -
  have "nonneg_integer_text ''9007199254740993''"
    by (simp add: nonneg_integer_text_def isRadixDigit_def digitValue_def)
  moreover have "mathInt 10 ''9007199254740993'' = 9007199254740993"
    by (simp add: mathInt_def digitValue_def)
  ultimately show ?thesis
    by (simp add: parseInt_decimal to_double_rounds)
qed

lemma write_beyond_safe_range:
  "fs_write [1, 2, 3, 4] [65, 66] (Finite 9007199254740992) = [65, 66, 3, 4]"
  by (simp add: fs_write_def write_position_def MAX_SAFE_INTEGER_def)

subsection \<open>Claims about put-chunk\<close>

text \<open>C8, as amended. A chunk PUT is answered 400, with no change of state, exactly when
  \<open>parseInt\<close> of the \<open>X-Chunk-Offset\<close> header is \<open>NaN\<close>. That is the case when the header is
  missing; it is never the case for a header that is a nonnegative decimal integer, and
  when that integer is at most \<open>2 ^ 53 - 1\<close> (\<open>Number.MAX_SAFE_INTEGER\<close>) its value is the
  parsed offset; but a header that only begins with an integer is accepted too. The answer
  is 500 exactly when the offset parsed and the write to the blob or the insert of the
  Chunk row failed. When the parsed offset is an integer from 0 to \<open>2 ^ 53 - 1\<close> and nothing
  failed, the body is written at that offset, the Chunk row is upserted, and the answer is
  200 \<open>{success: true}\<close>. Where the body lands for a parsed offset outside that range is
  not part of the statement.\<close>

theorem offset_header_validation:
  "(fst (fst (uploadChunk now env p s)) = 400 \<longleftrightarrow> parseInt_header (p_offset_header p) = None)
   \<and> (parseInt_header (p_offset_header p) = None \<longrightarrow>
        uploadChunk now env p s =
          ((400, JObj [(''error'', JStr ''Missing X-Chunk-Offset header'')]), s))
   \<and> (p_offset_header p = None \<longrightarrow> parseInt_header (p_offset_header p) = None)
   \<and> (\<forall>v. p_offset_header p = Some v \<and> nonneg_integer_text v \<longrightarrow>
          parseInt_header (p_offset_header p) \<noteq> None
          \<and> (int (mathInt 10 v) \<le> MAX_SAFE_INTEGER \<longrightarrow>
               parseInt_header (p_offset_header p) = Some (Finite (int (mathInt 10 v)))))
   \<and> (fst (fst (uploadChunk now env p s)) = 500 \<longleftrightarrow>
        parseInt_header (p_offset_header p) \<noteq> None \<and> env \<noteq> IO_ok)
   \<and> (parseInt_header (p_offset_header p) = Some (Finite off)
        \<and> 0 \<le> off \<and> off \<le> MAX_SAFE_INTEGER \<and> env = IO_ok \<longrightarrow>
        fst (uploadChunk now env p s) = (200, JObj [(''success'', JBool True)])
        \<and> blobs (snd (uploadChunk now env p s)) (p_uploadId p) =
            Some (fs_write (case blobs s (p_uploadId p) of None \<Rightarrow> [] | Some bs \<Rightarrow> bs)
                    (p_body p) (Finite off))
        \<and> take (length (p_body p))
             (drop (nat off)
                (fs_write (case blobs s (p_uploadId p) of None \<Rightarrow> [] | Some bs \<Rightarrow> bs)
                   (p_body p) (Finite off))) = p_body p
        \<and> map_of (chunk_rows (snd (uploadChunk now env p s))) (p_uploadId p, p_chunkIndex p) =
            Some \<lparr>ch_status = UPLOADED, ch_received_at = now\<rparr>)"
proof -
  have a: "fst (fst (uploadChunk now env p s)) = 400 \<longleftrightarrow> parseInt_header (p_offset_header p) = None"
    by (simp add: uploadChunk_code)
  have b: "parseInt_header (p_offset_header p) = None \<longrightarrow>
        uploadChunk now env p s =
          ((400, JObj [(''error'', JStr ''Missing X-Chunk-Offset header'')]), s)"
    by (simp add: uploadChunk_400)
  have c: "p_offset_header p = None \<longrightarrow> parseInt_header (p_offset_header p) = None"
    by (simp add: parseInt_header_missing)
  have d: "\<forall>v. p_offset_header p = Some v \<and> nonneg_integer_text v \<longrightarrow>
          parseInt_header (p_offset_header p) \<noteq> None
          \<and> (int (mathInt 10 v) \<le> MAX_SAFE_INTEGER \<longrightarrow>
               parseInt_header (p_offset_header p) = Some (Finite (int (mathInt 10 v))))"
    by (simp add: parseInt_header_def parseInt_decimal_number parseInt_decimal_safe)
  have e: "fst (fst (uploadChunk now env p s)) = 500 \<longleftrightarrow>
        parseInt_header (p_offset_header p) \<noteq> None \<and> env \<noteq> IO_ok"
    by (simp add: uploadChunk_code)
  have f: "parseInt_header (p_offset_header p) = Some (Finite off)
        \<and> 0 \<le> off \<and> off \<le> MAX_SAFE_INTEGER \<and> env = IO_ok \<longrightarrow>
        fst (uploadChunk now env p s) = (200, JObj [(''success'', JBool True)])
        \<and> blobs (snd (uploadChunk now env p s)) (p_uploadId p) =
            Some (fs_write (case blobs s (p_uploadId p) of None \<Rightarrow> [] | Some bs \<Rightarrow> bs)
                    (p_body p) (Finite off))
        \<and> take (length (p_body p))
             (drop (nat off)
                (fs_write (case blobs s (p_uploadId p) of None \<Rightarrow> [] | Some bs \<Rightarrow> bs)
                   (p_body p) (Finite off))) = p_body p
        \<and> map_of (chunk_rows (snd (uploadChunk now env p s))) (p_uploadId p, p_chunkIndex p) =
            Some \<lparr>ch_status = UPLOADED, ch_received_at = now\<rparr>"
    by (simp add: uploadChunk_200 fs_write_safe_range update_Some_unfold)
  from a b c d e f show ?thesis by blast
qed

text \<open>A request without the header, and one with the header \<open>3\<close> on the empty blob.\<close>

theorem offset_header_validation_witness:
  "uploadChunk 10 FS_write_error
      \<lparr>p_uploadId = 1, p_chunkIndex = 0, p_body = [65, 66], p_offset_header = None\<rparr> fresh_upload
     = ((400, JObj [(''error'', JStr ''Missing X-Chunk-Offset header'')]), fresh_upload)
   \<and> nonneg_integer_text ''3''
   \<and> fst (uploadChunk 10 IO_ok
            \<lparr>p_uploadId = 1, p_chunkIndex = 0, p_body = [65, 66], p_offset_header = Some ''3''\<rparr>
            fresh_upload)
     = (200, JObj [(''success'', JBool True)])
   \<and> blobs (snd (uploadChunk 10 IO_ok
            \<lparr>p_uploadId = 1, p_chunkIndex = 0, p_body = [65, 66], p_offset_header = Some ''3''\<rparr>
            fresh_upload)) 1
     = Some [0, 0, 0, 65, 66]"
proof -
  let ?missing = "\<lparr>p_uploadId = 1, p_chunkIndex = 0, p_body = [65, 66], p_offset_header = None\<rparr>"
  let ?three = "\<lparr>p_uploadId = 1, p_chunkIndex = 0, p_body = [65, 66], p_offset_header = Some ''3''\<rparr>"
  have valid: "nonneg_integer_text ''3''"
    by (simp add: nonneg_integer_text_def isRadixDigit_def digitValue_def)
  have value3: "int (mathInt 10 ''3'') = 3"
    by (simp add: mathInt_def digitValue_def)
  note m = offset_header_validation [of 10 FS_write_error ?missing fresh_upload 0]
  note t = offset_header_validation [of 10 IO_ok ?three fresh_upload 3]
  from m have nan: "parseInt_header (p_offset_header ?missing) = None"
    by simp
  with m have a: "uploadChunk 10 FS_write_error ?missing fresh_upload
     = ((400, JObj [(''error'', JStr ''Missing X-Chunk-Offset header'')]), fresh_upload)"
    by blast
  from t valid value3 have parsed: "parseInt_header (p_offset_header ?three) = Some (Finite 3)"
    by (simp add: MAX_SAFE_INTEGER_def)
  with t have b: "fst (uploadChunk 10 IO_ok ?three fresh_upload) = (200, JObj [(''success'', JBool True)])"
    and c: "blobs (snd (uploadChunk 10 IO_ok ?three fresh_upload)) (p_uploadId ?three)
            = Some (fs_write (case blobs fresh_upload (p_uploadId ?three) of None \<Rightarrow> [] | Some bs \<Rightarrow> bs)
                     (p_body ?three) (Finite 3))"
    by (simp_all add: MAX_SAFE_INTEGER_def)
  have "fs_write (case blobs fresh_upload (p_uploadId ?three) of None \<Rightarrow> [] | Some bs \<Rightarrow> bs)
          (p_body ?three) (Finite 3) = [0, 0, 0, 65, 66]"
    by (simp add: fresh_upload_eq fs_write_def write_position_def MAX_SAFE_INTEGER_def
          numeral_3_eq_3)
  with c have c': "blobs (snd (uploadChunk 10 IO_ok ?three fresh_upload)) 1 = Some [0, 0, 0, 65, 66]"
    by simp
  from a valid b c' show ?thesis by blast
qed

text \<open>C8 as stated fails: the header \<open>12abc\<close> is not a nonnegative integer, and the
  request is answered 200, with the body written at offset 12.\<close>

theorem offset_header_malformed_accepted_counterexample:
  "\<not> nonneg_integer_text ''12abc''
   \<and> fst (uploadChunk 10 IO_ok
            \<lparr>p_uploadId = 1, p_chunkIndex = 0, p_body = [65, 66], p_offset_header = Some ''12abc''\<rparr>
            fresh_upload)
     = (200, JObj [(''success'', JBool True)])
   \<and> blobs (snd (uploadChunk 10 IO_ok
            \<lparr>p_uploadId = 1, p_chunkIndex = 0, p_body = [65, 66], p_offset_header = Some ''12abc''\<rparr>
            fresh_upload)) 1
     = Some (replicate 12 0 @ [65, 66])"
proof -
  let ?p = "\<lparr>p_uploadId = 1, p_chunkIndex = 0, p_body = [65, 66], p_offset_header = Some ''12abc''\<rparr>"
  have "\<not> nonneg_integer_text ''12abc''"
    by (simp add: nonneg_integer_text_def isRadixDigit_def digitValue_def)
  moreover have h: "parseInt_header (p_offset_header ?p) = Some (Finite 12)"
    by (simp add: parseInt_12abc)
  ultimately show ?thesis
    unfolding uploadChunk_200[OF h, of 10 fresh_upload]
    by (simp add: fresh_upload_eq fs_write_def write_position_def MAX_SAFE_INTEGER_def)
qed

text \<open>C6. For a chunk PUT whose offset header parses, sent twice (at times \<open>t1\<close> and
  \<open>t2\<close>) with nothing failing: the state after both is the state after the second alone,
  both are answered 200, the blob after the second is the blob after the first, there is
  exactly one Chunk row for \<open>(upload_id, index)\<close> and its status is UPLOADED (given the
  primary key held before), and for a valid offset, an integer from 0 to \<open>2 ^ 53 - 1\<close>
  (\<open>Number.MAX_SAFE_INTEGER\<close>), the blob holds the body at \<open>[offset, offset + length)\<close>.\<close>

theorem put_chunk_idempotent:
  assumes "parseInt_header (p_offset_header p) = Some off"
  shows "snd (uploadChunk t2 IO_ok p (snd (uploadChunk t1 IO_ok p s))) = snd (uploadChunk t2 IO_ok p s)
   \<and> fst (uploadChunk t2 IO_ok p (snd (uploadChunk t1 IO_ok p s))) = (200, JObj [(''success'', JBool True)])
   \<and> fst (uploadChunk t1 IO_ok p s) = (200, JObj [(''success'', JBool True)])
   \<and> blobs (snd (uploadChunk t2 IO_ok p (snd (uploadChunk t1 IO_ok p s)))) =
       blobs (snd (uploadChunk t1 IO_ok p s))
   \<and> (distinct (map fst (chunk_rows s)) \<longrightarrow>
        map snd (filter (\<lambda>row. fst row = (p_uploadId p, p_chunkIndex p))
               (chunk_rows (snd (uploadChunk t2 IO_ok p (snd (uploadChunk t1 IO_ok p s))))))
          = [\<lparr>ch_status = UPLOADED, ch_received_at = t2\<rparr>])
   \<and> (\<forall>n. off = Finite n \<and> 0 \<le> n \<and> n \<le> MAX_SAFE_INTEGER \<longrightarrow>
        (\<exists>file. blobs (snd (uploadChunk t2 IO_ok p (snd (uploadChunk t1 IO_ok p s)))) (p_uploadId p)
                 = Some file
               \<and> take (length (p_body p)) (drop (nat n) file) = p_body p))"
proof -
  let ?k = "(p_uploadId p, p_chunkIndex p)"
  let ?old = "case blobs s (p_uploadId p) of None \<Rightarrow> [] | Some bs \<Rightarrow> bs"
  have once: "snd (uploadChunk t IO_ok p s) =
      s\<lparr>blobs := (blobs s)(p_uploadId p \<mapsto> fs_write ?old (p_body p) off),
        chunk_rows := AList.update ?k \<lparr>ch_status = UPLOADED, ch_received_at = t\<rparr> (chunk_rows s)\<rparr>"
    for t
    using uploadChunk_200[OF assms, of t s] by simp
  let ?s1 = "s\<lparr>blobs := (blobs s)(p_uploadId p \<mapsto> fs_write ?old (p_body p) off),
        chunk_rows := AList.update ?k \<lparr>ch_status = UPLOADED, ch_received_at = t1\<rparr> (chunk_rows s)\<rparr>"
  have "uploadChunk t2 IO_ok p ?s1 =
       ((200, JObj [(''success'', JBool True)]),
        ?s1\<lparr>blobs := (blobs ?s1)(p_uploadId p \<mapsto>
                      fs_write (case blobs ?s1 (p_uploadId p) of None \<Rightarrow> [] | Some bs \<Rightarrow> bs)
                        (p_body p) off),
          chunk_rows := AList.update (p_uploadId p, p_chunkIndex p)
                          \<lparr>ch_status = UPLOADED, ch_received_at = t2\<rparr> (chunk_rows ?s1)\<rparr>)"
    by (rule uploadChunk_200[OF assms])
  then have "snd (uploadChunk t2 IO_ok p ?s1) =
        ?s1\<lparr>blobs := (blobs ?s1)(p_uploadId p \<mapsto>
                      fs_write (case blobs ?s1 (p_uploadId p) of None \<Rightarrow> [] | Some bs \<Rightarrow> bs)
                        (p_body p) off),
          chunk_rows := AList.update (p_uploadId p, p_chunkIndex p)
                          \<lparr>ch_status = UPLOADED, ch_received_at = t2\<rparr> (chunk_rows ?s1)\<rparr>"
    by (simp only: snd_conv)
  also have "\<dots> =
      s\<lparr>blobs := (blobs s)(p_uploadId p \<mapsto> fs_write ?old (p_body p) off),
        chunk_rows := AList.update ?k \<lparr>ch_status = UPLOADED, ch_received_at = t2\<rparr> (chunk_rows s)\<rparr>"
    by (simp add: fs_write_twice)
  finally have step2: "snd (uploadChunk t2 IO_ok p ?s1) =
      s\<lparr>blobs := (blobs s)(p_uploadId p \<mapsto> fs_write ?old (p_body p) off),
        chunk_rows := AList.update ?k \<lparr>ch_status = UPLOADED, ch_received_at = t2\<rparr> (chunk_rows s)\<rparr>" .
  have twice: "snd (uploadChunk t2 IO_ok p (snd (uploadChunk t1 IO_ok p s))) =
      s\<lparr>blobs := (blobs s)(p_uploadId p \<mapsto> fs_write ?old (p_body p) off),
        chunk_rows := AList.update ?k \<lparr>ch_status = UPLOADED, ch_received_at = t2\<rparr> (chunk_rows s)\<rparr>"
    unfolding once[of t1] by (rule step2)
  have a: "snd (uploadChunk t2 IO_ok p (snd (uploadChunk t1 IO_ok p s))) = snd (uploadChunk t2 IO_ok p s)"
    by (subst twice, subst once, rule refl)
  have b: "fst (uploadChunk t IO_ok p s') = (200, JObj [(''success'', JBool True)])" for t s'
    using uploadChunk_200[OF assms, of t s'] by simp
  have c: "blobs (snd (uploadChunk t2 IO_ok p (snd (uploadChunk t1 IO_ok p s)))) =
       blobs (snd (uploadChunk t1 IO_ok p s))"
    by (subst twice, subst once, simp)
  have d: "map snd (filter (\<lambda>row. fst row = ?k)
               (chunk_rows (snd (uploadChunk t2 IO_ok p (snd (uploadChunk t1 IO_ok p s))))))
          = [\<lparr>ch_status = UPLOADED, ch_received_at = t2\<rparr>]"
    if "distinct (map fst (chunk_rows s))"
  proof -
    let ?rows = "AList.update ?k \<lparr>ch_status = UPLOADED, ch_received_at = t2\<rparr> (chunk_rows s)"
    have "distinct (map fst ?rows)" using that by (rule distinct_update)
    moreover have "map_of ?rows ?k = Some \<lparr>ch_status = UPLOADED, ch_received_at = t2\<rparr>"
      by (simp add: update_Some_unfold)
    ultimately have "filter (\<lambda>row. fst row = ?k) ?rows
                       = [(?k, \<lparr>ch_status = UPLOADED, ch_received_at = t2\<rparr>)]"
      by (rule filter_key_distinct)
    then show ?thesis by (simp add: twice)
  qed
  have e: "\<exists>file. blobs (snd (uploadChunk t2 IO_ok p (snd (uploadChunk t1 IO_ok p s)))) (p_uploadId p)
                 = Some file
               \<and> take (length (p_body p)) (drop (nat n) file) = p_body p"
    if "off = Finite n" and "0 \<le> n" and "n \<le> MAX_SAFE_INTEGER" for n
    using that by (simp add: twice fs_write_safe_range)
  from a b c d e show ?thesis by blast
qed

text \<open>The same two-byte chunk sent twice at offset 3 of the empty example blob.\<close>

theorem put_chunk_idempotent_witness:
  "snd (uploadChunk 20 IO_ok \<lparr>p_uploadId = 1, p_chunkIndex = 0, p_body = [65, 66], p_offset_header = Some ''3''\<rparr>
     (snd (uploadChunk 10 IO_ok \<lparr>p_uploadId = 1, p_chunkIndex = 0, p_body = [65, 66], p_offset_header = Some ''3''\<rparr> fresh_upload)))
   = fresh_upload\<lparr>blobs := [1 \<mapsto> [0, 0, 0, 65, 66]],
                   chunk_rows := [((1, 0), \<lparr>ch_status = UPLOADED, ch_received_at = 20\<rparr>)]\<rparr>
   \<and> (\<exists>file. blobs (snd (uploadChunk 20 IO_ok \<lparr>p_uploadId = 1, p_chunkIndex = 0, p_body = [65, 66], p_offset_header = Some ''3''\<rparr>
          (snd (uploadChunk 10 IO_ok \<lparr>p_uploadId = 1, p_chunkIndex = 0, p_body = [65, 66], p_offset_header = Some ''3''\<rparr> fresh_upload)))) 1
         = Some file
       \<and> take 2 (drop 3 file) = [65, 66])"
proof -
  let ?p = "\<lparr>p_uploadId = 1, p_chunkIndex = 0, p_body = [65, 66], p_offset_header = Some ''3''\<rparr>"
  have h: "parseInt_header (p_offset_header ?p) = Some (Finite 3)" by (simp add: parseInt_3)
  note t = put_chunk_idempotent[OF h, of 20 10 fresh_upload]
  have "snd (uploadChunk 20 IO_ok ?p (snd (uploadChunk 10 IO_ok ?p fresh_upload)))
          = snd (uploadChunk 20 IO_ok ?p fresh_upload)"
    using t by blast
  also have "\<dots> = fresh_upload\<lparr>blobs := [1 \<mapsto> [0, 0, 0, 65, 66]],
                   chunk_rows := [((1, 0), \<lparr>ch_status = UPLOADED, ch_received_at = 20\<rparr>)]\<rparr>"
    using uploadChunk_200[OF h, of 20 fresh_upload]
    by (simp add: fresh_upload_eq fs_write_def write_position_def MAX_SAFE_INTEGER_def
          numeral_3_eq_3)
  finally have state: "snd (uploadChunk 20 IO_ok ?p (snd (uploadChunk 10 IO_ok ?p fresh_upload)))
     = fresh_upload\<lparr>blobs := [1 \<mapsto> [0, 0, 0, 65, 66]],
                   chunk_rows := [((1, 0), \<lparr>ch_status = UPLOADED, ch_received_at = 20\<rparr>)]\<rparr>" .
  have safe: "Finite 3 = Finite 3 \<and> (0 :: int) \<le> 3 \<and> 3 \<le> MAX_SAFE_INTEGER"
    by (simp add: MAX_SAFE_INTEGER_def)
  from t safe
  have "\<exists>file. blobs (snd (uploadChunk 20 IO_ok ?p (snd (uploadChunk 10 IO_ok ?p fresh_upload))))
                  (p_uploadId ?p) = Some file
               \<and> take (length (p_body ?p)) (drop (nat 3) file) = p_body ?p"
    by blast
  then have range: "\<exists>file. blobs (snd (uploadChunk 20 IO_ok ?p
                      (snd (uploadChunk 10 IO_ok ?p fresh_upload)))) 1 = Some file
               \<and> take 2 (drop 3 file) = [65, 66]"
    by (simp add: numeral_2_eq_2)
  from state range show ?thesis by (rule conjI)
qed

text \<open>C5, as amended. Finalize never reads the Chunk records: its response and the
  Upload records it leaves are the same whatever Chunk records exist, and it does not
  change them; so COMPLETED does not depend on how many there are. Put-chunk upserts a
  Chunk record for whatever index the request names, without comparing it to
  \<open>total_chunks\<close>.\<close>

theorem chunk_records_not_consulted:
  "fst (finalize_request L e req (s\<lparr>chunk_rows := rows\<rparr>)) = fst (finalize_request L e req s)
   \<and> uploads (snd (finalize_request L e req (s\<lparr>chunk_rows := rows\<rparr>)))
       = uploads (snd (finalize_request L e req s))
   \<and> chunk_rows (snd (finalize_request L e req s)) = chunk_rows s
   \<and> (parseInt_header (p_offset_header p) \<noteq> None \<longrightarrow>
        map_of (chunk_rows (snd (uploadChunk now IO_ok p s))) (p_uploadId p, p_chunkIndex p)
          = Some \<lparr>ch_status = UPLOADED, ch_received_at = now\<rparr>)"
proof -
  have a: "fst (finalize_request L e req (s\<lparr>chunk_rows := rows\<rparr>)) = fst (finalize_request L e req s)"
    by (simp add: finalize_request_def finalizeUpload_def stream_done_def finish_def Let_def split: list.split option.split del: stream_chunks.simps)
  have b: "uploads (snd (finalize_request L e req (s\<lparr>chunk_rows := rows\<rparr>)))
       = uploads (snd (finalize_request L e req s))"
    by (simp add: finalize_request_def finalizeUpload_def stream_done_def finish_def Let_def split: list.split option.split del: stream_chunks.simps)
  have c: "chunk_rows (snd (finalize_request L e req s)) = chunk_rows s"
    by (simp add: finalize_request_def finalizeUpload_def stream_done_def finish_def Let_def split: list.split option.split del: stream_chunks.simps)
  have d: "parseInt_header (p_offset_header p) \<noteq> None \<longrightarrow>
        map_of (chunk_rows (snd (uploadChunk now IO_ok p s))) (p_uploadId p, p_chunkIndex p)
          = Some \<lparr>ch_status = UPLOADED, ch_received_at = now\<rparr>"
    by (auto simp add: uploadChunk_200 update_Some_unfold)
  from a b c d show ?thesis by blast
qed

text \<open>Index 7 on an upload of three chunks.\<close>

theorem chunk_records_not_consulted_witness:
  "u_total_chunks (hd (uploads fresh_upload)) = 3
   \<and> map_of (chunk_rows (snd (uploadChunk 10 IO_ok
                \<lparr>p_uploadId = 1, p_chunkIndex = 7, p_body = [65, 66], p_offset_header = Some ''3''\<rparr>
                fresh_upload))) (1, 7)
       = Some \<lparr>ch_status = UPLOADED, ch_received_at = 10\<rparr>"
  using chunk_records_not_consulted
          [where s = fresh_upload and now = 10
             and p = "\<lparr>p_uploadId = 1, p_chunkIndex = 7, p_body = [65, 66],
                       p_offset_header = Some ''3''\<rparr>"]
  by (simp add: parseInt_3 fresh_upload_eq)

text \<open>C5 as stated fails: the example upload of three chunks has no Chunk record at all,
  and a finalize sets it to COMPLETED.\<close>

theorem completed_without_chunk_records_counterexample:
  "u_total_chunks (hd (uploads fresh_upload)) = 3
   \<and> chunk_rows fresh_upload = []
   \<and> map u_status
        (uploads (snd (finalize_request empty_blob_libs False
                         \<lparr>f_uploadId = 1, f_clientHash = None\<rparr> fresh_upload)))
       = [COMPLETED]"
  unfolding completed_upload_def[symmetric]
  by (simp add: completed_upload_eq fresh_upload_eq)

section \<open>Server: the status machine\<close>

lemma server_inv_iff:
  "server_inv s \<longleftrightarrow>
     distinct (map u_id (uploads s))
     \<and> (\<forall>r\<in>set (uploads s). u_id r < next_id s)
     \<and> distinct (map fst (jobs s))
     \<and> (\<forall>j\<in>set (jobs s). \<exists>r\<in>set (uploads s). u_id r = fst j \<and> u_status r = PROCESSING)"
  by (simp add: server_inv_def list_all_iff list_ex_iff)

lemma rows_step_ok_iff:
  "rows_step_ok rows rows' \<longleftrightarrow>
     length rows \<le> length rows'
     \<and> (\<forall>k<length rows. u_id (rows' ! k) = u_id (rows ! k)
            \<and> transition_ok (u_status (rows ! k)) (u_status (rows' ! k)))"
  by (auto simp add: rows_step_ok_def list_all_iff)

lemma transition_ok_refl: "transition_ok a a"
  by (simp add: transition_ok_def)

lemma rows_step_ok_refl: "rows_step_ok rows rows"
  by (simp add: rows_step_ok_iff transition_ok_refl)

lemma rows_step_ok_append: "rows_step_ok rows (rows @ extra)"
  by (simp add: rows_step_ok_iff transition_ok_refl nth_append)

lemma rows_step_ok_map:
  assumes "\<And>r. r \<in> set rows \<Longrightarrow> u_id (f r) = u_id r \<and> transition_ok (u_status r) (u_status (f r))"
  shows "rows_step_ok rows (map f rows)"
  using assms by (simp add: rows_step_ok_iff)

lemma unique_row:
  assumes "distinct (map u_id rows)" and "r \<in> set rows" and "r' \<in> set rows" and "u_id r = u_id r'"
  shows "r = r'"
  using assms by (meson distinct_map inj_onD)

lemma filter_head:
  assumes "filter P xs = x # rest"
  shows "x \<in> set xs" and "P x"
proof -
  have "x \<in> set (filter P xs)" using assms by simp
  then show "x \<in> set xs" and "P x" by simp_all
qed

lemma set_status_ids: "map u_id (set_status uid st rows) = map u_id rows"
  by (induction rows) (simp_all add: set_status_def)

lemma ids_map:
  assumes "\<And>r. u_id (f r) = u_id r"
  shows "map u_id (map f rows) = map u_id rows"
  using assms by simp

lemma ids_bound_map:
  assumes "\<And>r. u_id (f r) = u_id r" and "\<forall>r\<in>set rows. u_id r < n"
  shows "\<forall>r\<in>set (map f rows). u_id r < n"
  using assms by simp

lemma map_fixed_mem:
  assumes "r \<in> set rows" and "f r = r"
  shows "r \<in> set (map f rows)"
  using assms by force

subsection \<open>Put-chunk and init leave statuses alone\<close>

lemma uploadChunk_tables:
  "uploads (snd (uploadChunk now env p s)) = uploads s
   \<and> jobs (snd (uploadChunk now env p s)) = jobs s
   \<and> next_id (snd (uploadChunk now env p s)) = next_id s"
  by (simp add: uploadChunk_def Let_def split: option.split)

lemma initiateUpload_tables:
  "jobs (snd (initiateUpload now e req s)) = jobs s
   \<and> ((uploads (snd (initiateUpload now e req s)) = uploads s
        \<and> next_id (snd (initiateUpload now e req s)) = next_id s)
      \<or> (\<exists>row. uploads (snd (initiateUpload now e req s)) = uploads s @ [row]
            \<and> u_id row = next_id s
            \<and> next_id (snd (initiateUpload now e req s)) = Suc (next_id s)))"
  by (simp add: initiateUpload_def Let_def split: list.split)

lemma inv_same_tables:
  assumes "server_inv s" and "uploads s' = uploads s" and "jobs s' = jobs s"
    and "next_id s' = next_id s"
  shows "server_inv s'"
  using assms by (simp add: server_inv_iff)

lemma inv_new_row:
  assumes "server_inv s" and "uploads s' = uploads s @ [row]" and "u_id row = next_id s"
    and "jobs s' = jobs s" and "next_id s' = Suc (next_id s)"
  shows "server_inv s'"
  using assms by (fastforce simp add: server_inv_iff)


subsection \<open>Finalize: taking the lock\<close>

lemma finalizeUpload_tables:
  "next_id (snd (finalizeUpload req s)) = next_id s
   \<and> ((uploads (snd (finalizeUpload req s)) = uploads s
        \<and> jobs (snd (finalizeUpload req s)) = jobs s)
      \<or> (\<exists>upload rest.
            filter (\<lambda>r. u_id r = f_uploadId req) (uploads s) = upload # rest
            \<and> u_status upload \<noteq> COMPLETED \<and> u_status upload \<noteq> PROCESSING
            \<and> uploads (snd (finalizeUpload req s))
                = set_status (f_uploadId req) PROCESSING (uploads s)
            \<and> jobs (snd (finalizeUpload req s))
                = jobs s @ [(f_uploadId req, f_clientHash req)]))"
  by (simp add: finalizeUpload_def split: list.split)

lemma lock_step:
  assumes inv: "server_inv s"
    and row: "filter (\<lambda>r. u_id r = uid) (uploads s) = upload # rest"
    and st: "u_status upload \<noteq> COMPLETED" "u_status upload \<noteq> PROCESSING"
    and up: "uploads s' = set_status uid PROCESSING (uploads s)"
    and jb: "jobs s' = jobs s @ [(uid, c)]"
    and nid: "next_id s' = next_id s"
  shows "server_inv s'" and "rows_step_ok (uploads s) (uploads s')"
proof -
  from inv have d: "distinct (map u_id (uploads s))"
    and bound: "\<forall>r\<in>set (uploads s). u_id r < next_id s"
    and dj: "distinct (map fst (jobs s))"
    and pj: "\<forall>j\<in>set (jobs s). \<exists>r\<in>set (uploads s). u_id r = fst j \<and> u_status r = PROCESSING"
    by (simp_all add: server_inv_iff)
  from row have mem: "upload \<in> set (uploads s)" and uid: "u_id upload = uid"
    by (rule filter_head)+
  have only: "r = upload" if "r \<in> set (uploads s)" "u_id r = uid" for r
    using unique_row[OF d that(1) mem] that(2) uid by simp
  let ?f = "\<lambda>r. if u_id r = uid then r\<lparr>u_status := PROCESSING\<rparr> else r"
  have up': "uploads s' = map ?f (uploads s)"
    by (simp add: up set_status_def)
  have tr: "transition_ok (u_status upload) PROCESSING"
    using st by (cases "u_status upload") (simp_all add: transition_ok_def)
  show "rows_step_ok (uploads s) (uploads s')"
    unfolding up'
  proof (rule rows_step_ok_map)
    fix r assume "r \<in> set (uploads s)"
    then show "u_id (?f r) = u_id r \<and> transition_ok (u_status r) (u_status (?f r))"
      using only[of r] tr by (auto simp add: transition_ok_refl)
  qed
  have no_job: "uid \<notin> fst ` set (jobs s)"
  proof
    assume "uid \<in> fst ` set (jobs s)"
    then obtain j where "j \<in> set (jobs s)" "fst j = uid" by auto
    with pj obtain r where "r \<in> set (uploads s)" "u_id r = uid" "u_status r = PROCESSING"
      by metis
    with only[of r] st(2) show False by simp
  qed
  have "distinct (map u_id (uploads s'))"
    using d by (simp add: up set_status_ids)
  moreover have "\<forall>r\<in>set (uploads s'). u_id r < next_id s'"
    unfolding up' nid using _ bound by (rule ids_bound_map) simp
  moreover have "distinct (map fst (jobs s'))"
    using dj no_job by (simp add: jb)
  moreover have "\<forall>j\<in>set (jobs s'). \<exists>r\<in>set (uploads s'). u_id r = fst j \<and> u_status r = PROCESSING"
  proof
    fix j assume "j \<in> set (jobs s')"
    then consider "j \<in> set (jobs s)" | "j = (uid, c)" by (auto simp add: jb)
    then show "\<exists>r\<in>set (uploads s'). u_id r = fst j \<and> u_status r = PROCESSING"
    proof cases
      case 1
      with pj obtain r where r: "r \<in> set (uploads s)" "u_id r = fst j" "u_status r = PROCESSING"
        by metis
      then have "?f r \<in> set (uploads s')" by (simp add: up')
      moreover have "u_id (?f r) = fst j \<and> u_status (?f r) = PROCESSING" using r by simp
      ultimately show ?thesis by blast
    next
      case 2
      have "?f upload \<in> set (uploads s')" using mem by (simp add: up')
      moreover have "u_id (?f upload) = fst j \<and> u_status (?f upload) = PROCESSING"
        using uid 2 by simp
      ultimately show ?thesis by blast
    qed
  qed
  ultimately show "server_inv s'" by (simp add: server_inv_iff)
qed

subsection \<open>Finalize: the stream callbacks\<close>

lemma stream_done_tables:
  "next_id (snd (stream_done L e job s)) = next_id s
   \<and> jobs (snd (stream_done L e job s)) = jobs s"
  by (simp add: stream_done_def finish_def Let_def split: option.split del: stream_chunks.simps)

lemma stream_done_uploads:
  "\<exists>g. (\<forall>r. u_id (g r) = u_id r \<and> (u_status (g r) = COMPLETED \<or> u_status (g r) = FAILED))
      \<and> uploads (snd (stream_done L e job s))
          = map (\<lambda>r. if u_id r = fst job then g r else r) (uploads s)"
proof -
  let ?failed = "\<lambda>r. r\<lparr>u_status := FAILED\<rparr>"
  have failed:
    "\<exists>g. (\<forall>r. u_id (g r) = u_id r \<and> (u_status (g r) = COMPLETED \<or> u_status (g r) = FAILED))
      \<and> uploads (snd (stream_done L e job s))
          = map (\<lambda>r. if u_id r = fst job then g r else r) (uploads s)"
    if "uploads (snd (stream_done L e job s)) = set_status (fst job) FAILED (uploads s)"
  proof (intro exI[of _ "?failed"] conjI)
    show "\<forall>r. u_id (?failed r) = u_id r
            \<and> (u_status (?failed r) = COMPLETED \<or> u_status (?failed r) = FAILED)"
      by simp
    show "uploads (snd (stream_done L e job s))
            = map (\<lambda>r. if u_id r = fst job then ?failed r else r) (uploads s)"
      unfolding that by (simp add: set_status_def)
  qed
  show ?thesis
  proof (cases "if e then None else blobs s (fst job)")
    case None
    then have "uploads (snd (stream_done L e job s)) = set_status (fst job) FAILED (uploads s)"
      by (simp add: stream_done_def Let_def)
    then show ?thesis by (rule failed)
  next
    case (Some bs)
    let ?h = "hash_stream L (stream_chunks highWaterMark bs)"
    let ?completed = "\<lambda>r. r\<lparr>u_status := COMPLETED, u_final_hash := Some ?h\<rparr>"
    show ?thesis
    proof (cases "truthy (snd job) \<and> snd job \<noteq> Some (JStr ?h)")
      case True
      with Some have "uploads (snd (stream_done L e job s)) = set_status (fst job) FAILED (uploads s)"
        by (simp add: stream_done_def Let_def del: stream_chunks.simps)
      then show ?thesis by (rule failed)
    next
      case False
      then have "stream_done L e job s
                   = finish (fst job) ?h (zipContent (yauzl_read L bs)) s"
        using Some unfolding stream_done_def Let_def
        by (simp only: option.case if_False)
      then have eq: "uploads (snd (stream_done L e job s))
                  = map (\<lambda>r. if u_id r = fst job then ?completed r else r) (uploads s)"
        by (simp add: finish_def del: stream_chunks.simps)
      show ?thesis
      proof (intro exI[of _ "?completed"] conjI)
        show "\<forall>r. u_id (?completed r) = u_id r
                \<and> (u_status (?completed r) = COMPLETED \<or> u_status (?completed r) = FAILED)"
          by simp
        show "uploads (snd (stream_done L e job s))
                = map (\<lambda>r. if u_id r = fst job then ?completed r else r) (uploads s)"
          by (rule eq)
      qed
    qed
  qed
qed

lemma distinct_remove_nth:
  assumes "distinct xs" and "k < length xs"
  shows "distinct (take k xs @ drop (Suc k) xs)"
    and "xs ! k \<notin> set (take k xs @ drop (Suc k) xs)"
proof -
  have "distinct (take k xs @ xs ! k # drop (Suc k) xs)"
    using assms by (simp only: id_take_nth_drop[symmetric])
  then show "distinct (take k xs @ drop (Suc k) xs)"
    and "xs ! k \<notin> set (take k xs @ drop (Suc k) xs)"
    by simp_all
qed

lemma remove_nth_distinct:
  assumes "distinct (map fst js)" and "k < length js"
  shows "distinct (map fst (take k js @ drop (Suc k) js))"
    and "\<forall>j\<in>set (take k js @ drop (Suc k) js). j \<in> set js \<and> fst j \<noteq> fst (js ! k)"
proof -
  have k: "k < length (map fst js)" using assms(2) by simp
  have eq: "map fst (take k js @ drop (Suc k) js)
              = take k (map fst js) @ drop (Suc k) (map fst js)"
    by (simp add: take_map drop_map)
  show "distinct (map fst (take k js @ drop (Suc k) js))"
    unfolding eq using assms(1) k by (rule distinct_remove_nth(1))
  have out: "fst (js ! k) \<notin> set (map fst (take k js @ drop (Suc k) js))"
    unfolding eq using distinct_remove_nth(2)[OF assms(1) k] assms(2) by simp
  show "\<forall>j\<in>set (take k js @ drop (Suc k) js). j \<in> set js \<and> fst j \<noteq> fst (js ! k)"
  proof
    fix j assume j: "j \<in> set (take k js @ drop (Suc k) js)"
    then have "j \<in> set (take k js) \<or> j \<in> set (drop (Suc k) js)" by simp
    then have "j \<in> set js" by (auto dest: in_set_takeD in_set_dropD)
    moreover have "fst j \<in> set (map fst (take k js @ drop (Suc k) js))"
      using j by (simp only: set_map) (rule imageI)
    with out have "fst j \<noteq> fst (js ! k)" by metis
    ultimately show "j \<in> set js \<and> fst j \<noteq> fst (js ! k)" ..
  qed
qed

lemma stream_step:
  assumes inv: "server_inv s" and k: "k < length (jobs s)"
    and up: "uploads s' = map (\<lambda>r. if u_id r = fst (jobs s ! k) then g r else r) (uploads s)"
    and g: "\<forall>r. u_id (g r) = u_id r \<and> (u_status (g r) = COMPLETED \<or> u_status (g r) = FAILED)"
    and jb: "jobs s' = take k (jobs s) @ drop (Suc k) (jobs s)"
    and nid: "next_id s' = next_id s"
  shows "server_inv s'" and "rows_step_ok (uploads s) (uploads s')"
proof -
  from inv have d: "distinct (map u_id (uploads s))"
    and bound: "\<forall>r\<in>set (uploads s). u_id r < next_id s"
    and dj: "distinct (map fst (jobs s))"
    and pj: "\<forall>j\<in>set (jobs s). \<exists>r\<in>set (uploads s). u_id r = fst j \<and> u_status r = PROCESSING"
    by (simp_all add: server_inv_iff)
  let ?uid = "fst (jobs s ! k)"
  let ?f = "\<lambda>r. if u_id r = ?uid then g r else r"
  have "jobs s ! k \<in> set (jobs s)" using k by simp
  with pj obtain r0 where r0: "r0 \<in> set (uploads s)" "u_id r0 = ?uid" "u_status r0 = PROCESSING"
    by metis
  have processing: "u_status r = PROCESSING" if "r \<in> set (uploads s)" "u_id r = ?uid" for r
    using unique_row[OF d that(1) r0(1)] that(2) r0(2,3) by simp
  have f_id: "u_id (?f r) = u_id r" for r
    using g by simp
  show "rows_step_ok (uploads s) (uploads s')"
    unfolding up
  proof (rule rows_step_ok_map)
    fix r assume r: "r \<in> set (uploads s)"
    show "u_id (?f r) = u_id r \<and> transition_ok (u_status r) (u_status (?f r))"
    proof (cases "u_id r = ?uid")
      case True
      then have "u_status r = PROCESSING" using r by (rule processing[rotated])
      moreover have "u_status (g r) = COMPLETED \<or> u_status (g r) = FAILED" using g by simp
      ultimately have "transition_ok (u_status r) (u_status (g r))"
        by (auto simp add: transition_ok_def)
      moreover have "u_id (g r) = u_id r" using g by simp
      ultimately show ?thesis using True by simp
    next
      case False
      then show ?thesis by (simp add: transition_ok_refl)
    qed
  qed
  note rest = remove_nth_distinct[OF dj k]
  have "distinct (map u_id (uploads s'))"
    unfolding up ids_map[of ?f, OF f_id] by (rule d)
  moreover have "\<forall>r\<in>set (uploads s'). u_id r < next_id s'"
    unfolding up nid using f_id bound by (rule ids_bound_map)
  moreover have "distinct (map fst (jobs s'))"
    using rest(1) by (simp add: jb)
  moreover have "\<forall>j\<in>set (jobs s'). \<exists>r\<in>set (uploads s'). u_id r = fst j \<and> u_status r = PROCESSING"
  proof
    fix j assume "j \<in> set (jobs s')"
    then have j: "j \<in> set (jobs s)" "fst j \<noteq> ?uid" using rest(2) by (simp_all add: jb)
    with pj obtain r where r: "r \<in> set (uploads s)" "u_id r = fst j" "u_status r = PROCESSING"
      by metis
    then have "?f r = r" using j(2) by simp
    with r(1) have "r \<in> set (uploads s')" unfolding up by (rule map_fixed_mem)
    with r show "\<exists>r\<in>set (uploads s'). u_id r = fst j \<and> u_status r = PROCESSING" by blast
  qed
  ultimately show "server_inv s'" by (simp add: server_inv_iff)
qed

subsection \<open>Cleanup\<close>

lemma cleanup_rows_tables:
  "uploads (foldl (\<lambda>s' row. cleanup_row row s') s rs)
     = map (\<lambda>r. if u_id r \<in> u_id ` set rs then r\<lparr>u_status := FAILED\<rparr> else r) (uploads s)
   \<and> jobs (foldl (\<lambda>s' row. cleanup_row row s') s rs) = jobs s
   \<and> next_id (foldl (\<lambda>s' row. cleanup_row row s') s rs) = next_id s"
proof (induction rs arbitrary: s)
  case Nil
  then show ?case by (simp add: map_idI)
next
  case (Cons row rs)
  have "map (\<lambda>r. if u_id r \<in> u_id ` set rs then r\<lparr>u_status := FAILED\<rparr> else r)
          (set_status (u_id row) FAILED (uploads s))
        = map (\<lambda>r. if u_id r \<in> u_id ` set (row # rs) then r\<lparr>u_status := FAILED\<rparr> else r)
            (uploads s)"
    by (simp add: set_status_def)
  then show ?case
    using Cons.IH[of "cleanup_row row s"] by (simp add: cleanup_row_def)
qed

lemma cleanup_step:
  assumes inv: "server_inv s"
  shows "server_inv (snd (cleanup now e s))"
    and "rows_step_ok (uploads s) (uploads (snd (cleanup now e s)))"
proof -
  from inv have d: "distinct (map u_id (uploads s))"
    and bound: "\<forall>r\<in>set (uploads s). u_id r < next_id s"
    and dj: "distinct (map fst (jobs s))"
    and pj: "\<forall>j\<in>set (jobs s). \<exists>r\<in>set (uploads s). u_id r = fst j \<and> u_status r = PROCESSING"
    by (simp_all add: server_inv_iff)
  let ?rs = "filter (\<lambda>r. u_status r = UPLOADING \<and> u_created_at r + 86400 < now) (uploads s)"
  let ?f = "\<lambda>r. if u_id r \<in> u_id ` set ?rs then r\<lparr>u_status := FAILED\<rparr> else r"
  let ?s' = "snd (cleanup now e s)"
  have stale: "u_status r = UPLOADING" if "r \<in> set (uploads s)" "u_id r \<in> u_id ` set ?rs" for r
  proof -
    from that(2) obtain x where x: "x \<in> set ?rs" "u_id r = u_id x" by auto
    then have "x \<in> set (uploads s)" "u_status x = UPLOADING" by simp_all
    with unique_row[OF d that(1) this(1) x(2)] show ?thesis by simp
  qed
  have tables: "(uploads ?s' = uploads s \<or> uploads ?s' = map ?f (uploads s))
      \<and> jobs ?s' = jobs s \<and> next_id ?s' = next_id s"
    by (cases e) (simp_all add: cleanup_def Let_def cleanup_rows_tables)
  have step_f: "rows_step_ok (uploads s) (map ?f (uploads s))"
  proof (rule rows_step_ok_map)
    fix r assume "r \<in> set (uploads s)"
    then show "u_id (?f r) = u_id r \<and> transition_ok (u_status r) (u_status (?f r))"
      using stale[of r] by (auto simp add: transition_ok_def)
  qed
  from tables have alt: "uploads ?s' = uploads s \<or> uploads ?s' = map ?f (uploads s)"
    and same: "jobs ?s' = jobs s" "next_id ?s' = next_id s"
    by simp_all
  from alt show "rows_step_ok (uploads s) (uploads ?s')"
  proof
    assume "uploads ?s' = uploads s"
    then show ?thesis by (simp only: rows_step_ok_refl)
  next
    assume "uploads ?s' = map ?f (uploads s)"
    then show ?thesis by (simp only: step_f)
  qed
  have f_id: "u_id (?f r) = u_id r" for r
    by simp
  have inv_f: "server_inv s'" if up_f: "uploads s' = map ?f (uploads s)" and jb_f: "jobs s' = jobs s"
      and nid_f: "next_id s' = next_id s" for s'
  proof -
    have "distinct (map u_id (uploads s'))"
      unfolding up_f ids_map[of ?f, OF f_id] by (rule d)
    moreover have "\<forall>r\<in>set (uploads s'). u_id r < next_id s'"
      unfolding up_f nid_f using f_id bound by (rule ids_bound_map)
    moreover have "distinct (map fst (jobs s'))"
      using dj by (simp add: jb_f)
    moreover have "\<forall>j\<in>set (jobs s'). \<exists>r\<in>set (uploads s'). u_id r = fst j \<and> u_status r = PROCESSING"
    proof
      fix j assume "j \<in> set (jobs s')"
      with pj obtain r where r: "r \<in> set (uploads s)" "u_id r = fst j" "u_status r = PROCESSING"
        unfolding jb_f by metis
      have "u_id r \<notin> u_id ` set ?rs" using stale[OF r(1)] r(3) by auto
      then have "?f r = r" by simp
      with r(1) have "r \<in> set (uploads s')" unfolding up_f by (rule map_fixed_mem)
      with r show "\<exists>r\<in>set (uploads s'). u_id r = fst j \<and> u_status r = PROCESSING" by blast
    qed
    ultimately show ?thesis by (simp add: server_inv_iff)
  qed
  from alt show "server_inv ?s'"
  proof
    assume "uploads ?s' = uploads s"
    then show ?thesis using same by (rule inv_same_tables[OF inv])
  next
    assume "uploads ?s' = map ?f (uploads s)"
    then show ?thesis using same by (rule inv_f)
  qed
qed

subsection \<open>Every step\<close>

lemma exec_step:
  assumes inv: "server_inv s"
  shows "server_inv (exec L now op s)"
    and "rows_step_ok (uploads s) (uploads (exec L now op s))"
proof -
  have "server_inv (exec L now op s) \<and> rows_step_ok (uploads s) (uploads (exec L now op s))"
  proof (cases op)
    case (Init e req)
    let ?s' = "snd (initiateUpload now e req s)"
    from initiateUpload_tables[of now e req s]
    have jb: "jobs ?s' = jobs s"
      and alt: "(uploads ?s' = uploads s \<and> next_id ?s' = next_id s)
          \<or> (\<exists>row. uploads ?s' = uploads s @ [row] \<and> u_id row = next_id s
                \<and> next_id ?s' = Suc (next_id s))"
      by simp_all
    from alt have "server_inv ?s' \<and> rows_step_ok (uploads s) (uploads ?s')"
    proof
      assume same: "uploads ?s' = uploads s \<and> next_id ?s' = next_id s"
      then have "server_inv ?s'" using jb inv_same_tables[OF inv, of ?s'] by simp
      with same show ?thesis by (simp add: rows_step_ok_refl)
    next
      assume "\<exists>row. uploads ?s' = uploads s @ [row] \<and> u_id row = next_id s
                \<and> next_id ?s' = Suc (next_id s)"
      then obtain row where new: "uploads ?s' = uploads s @ [row]" "u_id row = next_id s"
          "next_id ?s' = Suc (next_id s)"
        by blast
      have "server_inv ?s'" using inv new(1,2) jb new(3) by (rule inv_new_row)
      with new(1) show ?thesis by (simp add: rows_step_ok_append)
    qed
    with Init show ?thesis by (simp add: exec_def)
  next
    case (Put e p)
    let ?s' = "snd (uploadChunk now e p s)"
    from uploadChunk_tables[of now e p s]
    have t: "uploads ?s' = uploads s" "jobs ?s' = jobs s" "next_id ?s' = next_id s"
      by simp_all
    have "server_inv ?s'" using inv t by (rule inv_same_tables)
    with t(1) Put show ?thesis by (simp add: exec_def rows_step_ok_refl)
  next
    case (Finalize req)
    let ?s' = "snd (finalizeUpload req s)"
    from finalizeUpload_tables[of req s]
    have nid: "next_id ?s' = next_id s"
      and alt: "(uploads ?s' = uploads s \<and> jobs ?s' = jobs s)
      \<or> (\<exists>upload rest.
            filter (\<lambda>r. u_id r = f_uploadId req) (uploads s) = upload # rest
            \<and> u_status upload \<noteq> COMPLETED \<and> u_status upload \<noteq> PROCESSING
            \<and> uploads ?s' = set_status (f_uploadId req) PROCESSING (uploads s)
            \<and> jobs ?s' = jobs s @ [(f_uploadId req, f_clientHash req)])"
      by simp_all
    from alt have "server_inv ?s' \<and> rows_step_ok (uploads s) (uploads ?s')"
    proof
      assume same: "uploads ?s' = uploads s \<and> jobs ?s' = jobs s"
      then have "server_inv ?s'" using nid inv_same_tables[OF inv, of ?s'] by simp
      with same show ?thesis by (simp add: rows_step_ok_refl)
    next
      assume "\<exists>upload rest.
            filter (\<lambda>r. u_id r = f_uploadId req) (uploads s) = upload # rest
            \<and> u_status upload \<noteq> COMPLETED \<and> u_status upload \<noteq> PROCESSING
            \<and> uploads ?s' = set_status (f_uploadId req) PROCESSING (uploads s)
            \<and> jobs ?s' = jobs s @ [(f_uploadId req, f_clientHash req)]"
      then obtain upload rest where
        l: "filter (\<lambda>r. u_id r = f_uploadId req) (uploads s) = upload # rest"
          "u_status upload \<noteq> COMPLETED" "u_status upload \<noteq> PROCESSING"
          "uploads ?s' = set_status (f_uploadId req) PROCESSING (uploads s)"
          "jobs ?s' = jobs s @ [(f_uploadId req, f_clientHash req)]"
        by blast
      from lock_step[OF inv l nid] show ?thesis by simp
    qed
    with Finalize show ?thesis by (simp add: exec_def)
  next
    case (StreamDone k e)
    show ?thesis
    proof (cases "k < length (jobs s)")
      case False
      with StreamDone inv show ?thesis by (simp add: exec_def rows_step_ok_refl)
    next
      case True
      let ?s0 = "s\<lparr>jobs := take k (jobs s) @ drop (Suc k) (jobs s)\<rparr>"
      let ?s' = "snd (stream_done L e (jobs s ! k) ?s0)"
      from stream_done_tables[of L e "jobs s ! k" ?s0]
      have nid: "next_id ?s' = next_id s"
        and jb: "jobs ?s' = take k (jobs s) @ drop (Suc k) (jobs s)"
        by simp_all
      from stream_done_uploads[of L e "jobs s ! k" ?s0]
      obtain g where g: "\<forall>r. u_id (g r) = u_id r \<and> (u_status (g r) = COMPLETED \<or> u_status (g r) = FAILED)"
        and up: "uploads ?s' = map (\<lambda>r. if u_id r = fst (jobs s ! k) then g r else r) (uploads s)"
        by auto
      from stream_step[OF inv True up g jb nid]
      have "server_inv ?s' \<and> rows_step_ok (uploads s) (uploads ?s')" by simp
      with StreamDone True show ?thesis by (simp add: exec_def)
    qed
  next
    case (Cleanup e)
    from cleanup_step[OF inv, of now e] Cleanup show ?thesis by (simp add: exec_def)
  qed
  then show "server_inv (exec L now op s)"
    and "rows_step_ok (uploads s) (uploads (exec L now op s))"
    by simp_all
qed

lemma server_inv_empty: "server_inv empty_server"
  by (simp add: server_inv_def empty_server_def)

lemma run_inv: "server_inv s \<Longrightarrow> server_inv (run L ops s)"
proof (induction ops arbitrary: s)
  case Nil
  then show ?case by simp
next
  case (Cons a ops)
  obtain now op where a: "a = (now, op)" by (cases a)
  from Cons.prems have "server_inv (exec L now op s)" by (rule exec_step(1))
  then have "server_inv (run L ops (exec L now op s))" by (rule Cons.IH)
  with a show ?case by simp
qed

lemma completed_is_terminal: "transition_ok COMPLETED b \<Longrightarrow> b = COMPLETED"
  by (auto simp add: transition_ok_def)

lemma completed_stays:
  assumes "server_inv s" and "k < length (uploads s)" and "u_status (uploads s ! k) = COMPLETED"
  shows "k < length (uploads (run L ops s)) \<and> u_status (uploads (run L ops s) ! k) = COMPLETED"
  using assms
proof (induction ops arbitrary: s)
  case Nil
  then show ?case by simp
next
  case (Cons a ops)
  obtain now op where a: "a = (now, op)" by (cases a)
  let ?s' = "exec L now op s"
  from exec_step[OF Cons.prems(1), of L now op]
  have inv': "server_inv ?s'" and step: "rows_step_ok (uploads s) (uploads ?s')"
    by simp_all
  from step Cons.prems(2,3) have "k < length (uploads ?s')"
    and "transition_ok COMPLETED (u_status (uploads ?s' ! k))"
    by (auto simp add: rows_step_ok_iff)
  then have "k < length (uploads ?s')" and "u_status (uploads ?s' ! k) = COMPLETED"
    by (simp_all add: completed_is_terminal)
  with inv' have "k < length (uploads (run L ops ?s'))
      \<and> u_status (uploads (run L ops ?s') ! k) = COMPLETED"
    by (rule Cons.IH)
  with a show ?case by simp
qed

subsection \<open>Finalize against a FAILED upload\<close>

lemma filter_unique_row:
  assumes "distinct (map u_id rows)" and "k < length rows"
  shows "filter (\<lambda>r. u_id r = u_id (rows ! k)) rows = [rows ! k]"
  using assms
proof (induction rows arbitrary: k)
  case Nil
  then show ?case by simp
next
  case (Cons r rows)
  show ?case
  proof (cases k)
    case 0
    have "u_id r \<notin> u_id ` set rows" using Cons.prems(1) by simp
    then have "filter (\<lambda>x. u_id x = u_id r) rows = []"
      by (auto simp add: filter_empty_conv image_iff)
    with 0 show ?thesis by simp
  next
    case (Suc j)
    with Cons.prems have j: "j < length rows" and d: "distinct (map u_id rows)"
      by simp_all
    have "rows ! j \<in> set rows" using j by simp
    then have "u_id r \<noteq> u_id (rows ! j)" using Cons.prems(1) by auto
    with Suc Cons.IH[OF d j] show ?thesis by simp
  qed
qed

lemma set_status_nth:
  "k < length rows \<Longrightarrow> u_status (set_status (u_id (rows ! k)) st rows ! k) = st"
  by (simp add: set_status_def)

lemma finish_nth:
  "k < length rows \<Longrightarrow>
     u_status (map (\<lambda>r. if u_id r = u_id (rows ! k)
                          then r\<lparr>u_status := COMPLETED, u_final_hash := h\<rparr> else r) rows ! k)
       = COMPLETED"
  by simp

lemma run_finalize_serial:
  "run L [(t1, Finalize req), (t2, StreamDone (length (jobs s)) e)] s
     = snd (finalize_request L e req s)"
  by (simp add: exec_def finalize_request_def finalizeUpload_def split: list.split)

lemma finalize_failed_locks:
  assumes inv: "server_inv s" and k: "k < length (uploads s)"
    and st: "u_status (uploads s ! k) = FAILED"
  shows "fst (finalizeUpload \<lparr>f_uploadId = u_id (uploads s ! k), f_clientHash = c\<rparr> s) = None"
    and "u_status (uploads (exec L now
            (Finalize \<lparr>f_uploadId = u_id (uploads s ! k), f_clientHash = c\<rparr>) s) ! k) = PROCESSING"
proof -
  let ?req = "\<lparr>f_uploadId = u_id (uploads s ! k), f_clientHash = c\<rparr>"
  have d: "distinct (map u_id (uploads s))"
    using inv by (simp add: server_inv_iff)
  have row: "filter (\<lambda>r. u_id r = f_uploadId ?req) (uploads s) = uploads s ! k # []"
    using filter_unique_row[OF d k] by simp
  have st': "u_status (uploads s ! k) \<noteq> COMPLETED" "u_status (uploads s ! k) \<noteq> PROCESSING"
    using st by simp_all
  note locks = finalizeUpload_locks[OF row st']
  show "fst (finalizeUpload ?req s) = None"
    unfolding locks by simp
  show "u_status (uploads (exec L now (Finalize ?req) s) ! k) = PROCESSING"
    unfolding exec_def server_op.case locks using k by (simp add: set_status_nth)
qed

lemma finalize_failed_completes:
  assumes inv: "server_inv s" and k: "k < length (uploads s)"
    and st: "u_status (uploads s ! k) = FAILED"
    and blob: "blobs s (u_id (uploads s ! k)) = Some bs"
    and hash: "\<not> truthy c \<or> c = Some (JStr (to_hex (sha256 L bs)))"
  shows "fst (finalize_request L False \<lparr>f_uploadId = u_id (uploads s ! k), f_clientHash = c\<rparr> s)
           = (200, JObj [(''status'', JStr ''COMPLETED''),
                         (''uploadId'', JStr (show_nat (u_id (uploads s ! k)))),
                         (''hash'', JStr (to_hex (sha256 L bs))),
                         (''zipContent'', JArr (map JStr (zipContent (yauzl_read L bs))))])"
    and "u_status (uploads (run L
            [(t1, Finalize \<lparr>f_uploadId = u_id (uploads s ! k), f_clientHash = c\<rparr>),
             (t2, StreamDone (length (jobs s)) False)] s) ! k) = COMPLETED"
proof -
  let ?req = "\<lparr>f_uploadId = u_id (uploads s ! k), f_clientHash = c\<rparr>"
  have d: "distinct (map u_id (uploads s))"
    using inv by (simp add: server_inv_iff)
  have row: "filter (\<lambda>r. u_id r = f_uploadId ?req) (uploads s) = uploads s ! k # []"
    using filter_unique_row[OF d k] by simp
  have st': "u_status (uploads s ! k) \<noteq> COMPLETED" "u_status (uploads s ! k) \<noteq> PROCESSING"
    using st by simp_all
  have blob': "blobs s (f_uploadId ?req) = Some bs"
    using blob by simp
  have hash': "\<not> truthy (f_clientHash ?req) \<or> f_clientHash ?req = Some (JStr (to_hex (sha256 L bs)))"
    using hash by simp
  note completes = finalize_request_completes[OF row st' blob' hash']
  show "fst (finalize_request L False ?req s)
           = (200, JObj [(''status'', JStr ''COMPLETED''),
                         (''uploadId'', JStr (show_nat (u_id (uploads s ! k)))),
                         (''hash'', JStr (to_hex (sha256 L bs))),
                         (''zipContent'', JArr (map JStr (zipContent (yauzl_read L bs))))])"
    unfolding completes by simp
  show "u_status (uploads (run L [(t1, Finalize ?req), (t2, StreamDone (length (jobs s)) False)] s) ! k)
          = COMPLETED"
    unfolding run_finalize_serial completes using k by simp
qed

subsection \<open>The claim\<close>

text \<open>C3, as amended. In every state reached from the empty server by a sequence of
  steps (init, put-chunk, finalize, completion of a finalize's stream, cleanup), served
  one after the other, any next step keeps every Upload record and its id, and changes its
  status only along UPLOADING to PROCESSING, PROCESSING to COMPLETED or FAILED, UPLOADING
  to FAILED, or FAILED to PROCESSING. COMPLETED is terminal: a COMPLETED upload stays
  COMPLETED through every later sequence of steps. FAILED is not: a finalize request
  against a FAILED upload gets no refusal from the handler and moves the upload to
  PROCESSING; and when the blob is there and the request has no truthy \<open>clientHash\<close>, or the
  right one, the request is answered 200 and at the end of its stream the upload is
  COMPLETED.\<close>

theorem upload_status_machine:
  assumes "s = run L ops empty_server" and "k < length (uploads s)"
  shows "k < length (uploads (exec L now op s))
       \<and> u_id (uploads (exec L now op s) ! k) = u_id (uploads s ! k)
       \<and> transition_ok (u_status (uploads s ! k)) (u_status (uploads (exec L now op s) ! k))
       \<and> (u_status (uploads s ! k) = COMPLETED \<longrightarrow>
            k < length (uploads (run L later s))
            \<and> u_status (uploads (run L later s) ! k) = COMPLETED)
       \<and> (u_status (uploads s ! k) = FAILED \<longrightarrow>
            fst (finalizeUpload \<lparr>f_uploadId = u_id (uploads s ! k), f_clientHash = c\<rparr> s) = None
            \<and> u_status (uploads (exec L now
                  (Finalize \<lparr>f_uploadId = u_id (uploads s ! k), f_clientHash = c\<rparr>) s) ! k)
                = PROCESSING)
       \<and> (u_status (uploads s ! k) = FAILED \<and> blobs s (u_id (uploads s ! k)) = Some bs
            \<and> (\<not> truthy c \<or> c = Some (JStr (to_hex (sha256 L bs)))) \<longrightarrow>
            fst (finalize_request L False
                   \<lparr>f_uploadId = u_id (uploads s ! k), f_clientHash = c\<rparr> s)
              = (200, JObj [(''status'', JStr ''COMPLETED''),
                            (''uploadId'', JStr (show_nat (u_id (uploads s ! k)))),
                            (''hash'', JStr (to_hex (sha256 L bs))),
                            (''zipContent'', JArr (map JStr (zipContent (yauzl_read L bs))))])
            \<and> u_status (uploads (run L
                  [(t1, Finalize \<lparr>f_uploadId = u_id (uploads s ! k), f_clientHash = c\<rparr>),
                   (t2, StreamDone (length (jobs s)) False)] s) ! k)
                = COMPLETED)"
proof -
  have inv: "server_inv s"
    unfolding assms(1) using server_inv_empty by (rule run_inv)
  from exec_step(2)[OF inv, of L now op] assms(2)
  have step: "k < length (uploads (exec L now op s))
       \<and> u_id (uploads (exec L now op s) ! k) = u_id (uploads s ! k)
       \<and> transition_ok (u_status (uploads s ! k)) (u_status (uploads (exec L now op s) ! k))"
    by (auto simp add: rows_step_ok_iff)
  have terminal: "u_status (uploads s ! k) = COMPLETED \<longrightarrow>
            k < length (uploads (run L later s))
            \<and> u_status (uploads (run L later s) ! k) = COMPLETED"
    using completed_stays[OF inv assms(2)] by blast
  have locks: "u_status (uploads s ! k) = FAILED \<longrightarrow>
            fst (finalizeUpload \<lparr>f_uploadId = u_id (uploads s ! k), f_clientHash = c\<rparr> s) = None
            \<and> u_status (uploads (exec L now
                  (Finalize \<lparr>f_uploadId = u_id (uploads s ! k), f_clientHash = c\<rparr>) s) ! k)
                = PROCESSING"
    using finalize_failed_locks[OF inv assms(2)] by blast
  have completes: "u_status (uploads s ! k) = FAILED \<and> blobs s (u_id (uploads s ! k)) = Some bs
            \<and> (\<not> truthy c \<or> c = Some (JStr (to_hex (sha256 L bs)))) \<longrightarrow>
            fst (finalize_request L False
                   \<lparr>f_uploadId = u_id (uploads s ! k), f_clientHash = c\<rparr> s)
              = (200, JObj [(''status'', JStr ''COMPLETED''),
                            (''uploadId'', JStr (show_nat (u_id (uploads s ! k)))),
                            (''hash'', JStr (to_hex (sha256 L bs))),
                            (''zipContent'', JArr (map JStr (zipContent (yauzl_read L bs))))])
            \<and> u_status (uploads (run L
                  [(t1, Finalize \<lparr>f_uploadId = u_id (uploads s ! k), f_clientHash = c\<rparr>),
                   (t2, StreamDone (length (jobs s)) False)] s) ! k)
                = COMPLETED"
    using finalize_failed_completes[OF inv assms(2)] by blast
  from step terminal locks completes show ?thesis
    by (intro conjI) simp_all
qed

subsection \<open>An upload that fails and is finalized again\<close>

lemma run_snoc: "run L (ops @ [(now, op)]) s = exec L now op (run L ops s)"
  by (induction ops arbitrary: s) auto

lemma failed_example:
  "run empty_blob_libs
       [(0, Init False example_init),
        (5, Finalize \<lparr>f_uploadId = 1, f_clientHash = Some (JStr zeros_hash)\<rparr>),
        (9, StreamDone 0 False)]
       empty_server
     = \<lparr>uploads = [\<lparr>u_id = 1, u_filename = ''a.bin'', u_total_size = 12582912,
                     u_total_chunks = 3, u_status = FAILED, u_final_hash = None,
                     u_created_at = 0\<rparr>],
        chunk_rows = [], blobs = [1 \<mapsto> []], next_id = 2, jobs = []\<rparr>"
proof -
  let ?locked = "\<lparr>uploads = [\<lparr>u_id = 1, u_filename = ''a.bin'', u_total_size = 12582912,
                     u_total_chunks = 3, u_status = PROCESSING, u_final_hash = None,
                     u_created_at = 0\<rparr>],
        chunk_rows = [], blobs = [1 \<mapsto> []], next_id = 2,
        jobs = [(1, Some (JStr zeros_hash))]\<rparr>"
  have e1: "exec empty_blob_libs 0 (Init False example_init) empty_server = fresh_upload"
    by (simp add: exec_def fresh_upload_def)
  have e2: "exec empty_blob_libs 5
              (Finalize \<lparr>f_uploadId = 1, f_clientHash = Some (JStr zeros_hash)\<rparr>) fresh_upload
            = ?locked"
    by (simp add: exec_def finalizeUpload_def fresh_upload_eq set_status_def)
  have e3: "exec empty_blob_libs 9 (StreamDone 0 False) ?locked
            = \<lparr>uploads = [\<lparr>u_id = 1, u_filename = ''a.bin'', u_total_size = 12582912,
                     u_total_chunks = 3, u_status = FAILED, u_final_hash = None,
                     u_created_at = 0\<rparr>],
        chunk_rows = [], blobs = [1 \<mapsto> []], next_id = 2, jobs = []\<rparr>"
    by (simp add: exec_def stream_done_def hash_stream_def empty_blob_hash Let_def
          set_status_def zeros_hash_def)
  show ?thesis
    by (simp only: run.simps e1 e2 e3)
qed

lemma relocked_example:
  "run empty_blob_libs
       [(0, Init False example_init),
        (5, Finalize \<lparr>f_uploadId = 1, f_clientHash = Some (JStr zeros_hash)\<rparr>),
        (9, StreamDone 0 False),
        (12, Finalize \<lparr>f_uploadId = 1, f_clientHash = None\<rparr>)]
       empty_server
     = \<lparr>uploads = [\<lparr>u_id = 1, u_filename = ''a.bin'', u_total_size = 12582912,
                     u_total_chunks = 3, u_status = PROCESSING, u_final_hash = None,
                     u_created_at = 0\<rparr>],
        chunk_rows = [], blobs = [1 \<mapsto> []], next_id = 2, jobs = [(1, None)]\<rparr>"
proof -
  have "run empty_blob_libs
       ([(0, Init False example_init),
         (5, Finalize \<lparr>f_uploadId = 1, f_clientHash = Some (JStr zeros_hash)\<rparr>),
         (9, StreamDone 0 False)] @ [(12, Finalize \<lparr>f_uploadId = 1, f_clientHash = None\<rparr>)])
       empty_server
     = \<lparr>uploads = [\<lparr>u_id = 1, u_filename = ''a.bin'', u_total_size = 12582912,
                     u_total_chunks = 3, u_status = PROCESSING, u_final_hash = None,
                     u_created_at = 0\<rparr>],
        chunk_rows = [], blobs = [1 \<mapsto> []], next_id = 2, jobs = [(1, None)]\<rparr>"
    unfolding run_snoc failed_example
    by (simp add: exec_def finalizeUpload_def set_status_def)
  then show ?thesis by simp
qed

lemma refinalized_example:
  "run empty_blob_libs
       [(0, Init False example_init),
        (5, Finalize \<lparr>f_uploadId = 1, f_clientHash = Some (JStr zeros_hash)\<rparr>),
        (9, StreamDone 0 False),
        (12, Finalize \<lparr>f_uploadId = 1, f_clientHash = None\<rparr>),
        (15, StreamDone 0 False)]
       empty_server
     = \<lparr>uploads = [\<lparr>u_id = 1, u_filename = ''a.bin'', u_total_size = 12582912,
                     u_total_chunks = 3, u_status = COMPLETED,
                     u_final_hash = Some ''e3b0c44298fc1c149afbf4c8996fb92427ae41e4649b934ca495991b7852b855'',
                     u_created_at = 0\<rparr>],
        chunk_rows = [], blobs = [1 \<mapsto> []], next_id = 2, jobs = []\<rparr>"
proof -
  have "run empty_blob_libs
       ([(0, Init False example_init),
         (5, Finalize \<lparr>f_uploadId = 1, f_clientHash = Some (JStr zeros_hash)\<rparr>),
         (9, StreamDone 0 False),
         (12, Finalize \<lparr>f_uploadId = 1, f_clientHash = None\<rparr>)] @ [(15, StreamDone 0 False)])
       empty_server
     = \<lparr>uploads = [\<lparr>u_id = 1, u_filename = ''a.bin'', u_total_size = 12582912,
                     u_total_chunks = 3, u_status = COMPLETED,
                     u_final_hash = Some ''e3b0c44298fc1c149afbf4c8996fb92427ae41e4649b934ca495991b7852b855'',
                     u_created_at = 0\<rparr>],
        chunk_rows = [], blobs = [1 \<mapsto> []], next_id = 2, jobs = []\<rparr>"
    unfolding run_snoc relocked_example
    by (simp add: exec_def stream_done_def hash_stream_def empty_blob_hash empty_blob_zip
          Let_def finish_def)
  then show ?thesis by simp
qed

text \<open>The example upload is created, and a finalize with a wrong \<open>clientHash\<close> leaves it
  FAILED. A finalize without \<open>clientHash\<close> is then not refused and moves the upload to
  PROCESSING, an allowed transition; at the end of its stream the upload is COMPLETED, and
  it is still COMPLETED after a cleanup, a day later, and one more finalize.\<close>

theorem upload_status_machine_witness:
  "u_status (uploads (run empty_blob_libs
       [(0, Init False example_init),
        (5, Finalize \<lparr>f_uploadId = 1, f_clientHash = Some (JStr zeros_hash)\<rparr>),
        (9, StreamDone 0 False)] empty_server) ! 0) = FAILED
   \<and> fst (finalizeUpload \<lparr>f_uploadId = 1, f_clientHash = None\<rparr>
        (run empty_blob_libs
          [(0, Init False example_init),
           (5, Finalize \<lparr>f_uploadId = 1, f_clientHash = Some (JStr zeros_hash)\<rparr>),
           (9, StreamDone 0 False)] empty_server)) = None
   \<and> u_status (uploads (exec empty_blob_libs 12 (Finalize \<lparr>f_uploadId = 1, f_clientHash = None\<rparr>)
        (run empty_blob_libs
          [(0, Init False example_init),
           (5, Finalize \<lparr>f_uploadId = 1, f_clientHash = Some (JStr zeros_hash)\<rparr>),
           (9, StreamDone 0 False)] empty_server)) ! 0) = PROCESSING
   \<and> transition_ok FAILED PROCESSING
   \<and> u_status (uploads (run empty_blob_libs
        [(12, Finalize \<lparr>f_uploadId = 1, f_clientHash = None\<rparr>), (15, StreamDone 0 False)]
        (run empty_blob_libs
          [(0, Init False example_init),
           (5, Finalize \<lparr>f_uploadId = 1, f_clientHash = Some (JStr zeros_hash)\<rparr>),
           (9, StreamDone 0 False)] empty_server)) ! 0) = COMPLETED
   \<and> u_status (uploads (run empty_blob_libs
        [(90000, Cleanup None), (90001, Finalize \<lparr>f_uploadId = 1, f_clientHash = None\<rparr>)]
        (run empty_blob_libs
          [(0, Init False example_init),
           (5, Finalize \<lparr>f_uploadId = 1, f_clientHash = Some (JStr zeros_hash)\<rparr>),
           (9, StreamDone 0 False),
           (12, Finalize \<lparr>f_uploadId = 1, f_clientHash = None\<rparr>),
           (15, StreamDone 0 False)] empty_server)) ! 0) = COMPLETED"
proof -
  let ?ops = "[(0, Init False example_init),
        (5, Finalize \<lparr>f_uploadId = 1, f_clientHash = Some (JStr zeros_hash)\<rparr>),
        (9, StreamDone 0 False)]"
  let ?s = "run empty_blob_libs ?ops empty_server"
  have len: "0 < length (uploads ?s)"
    unfolding failed_example by simp
  have failed: "u_status (uploads ?s ! 0) = FAILED"
    unfolding failed_example by simp
  have uid: "u_id (uploads ?s ! 0) = 1"
    unfolding failed_example by simp
  have blob: "blobs ?s (u_id (uploads ?s ! 0)) = Some []"
    unfolding failed_example by simp
  have no_jobs: "length (jobs ?s) = 0"
    unfolding failed_example by simp
  note t = upload_status_machine[OF refl len,
             of 12 "Finalize \<lparr>f_uploadId = 1, f_clientHash = None\<rparr>" "[]" None "[]" 12 15]
  have hash: "\<not> truthy None \<or> None = Some (JStr (to_hex (sha256 empty_blob_libs [])))"
    by simp
  from t failed
  have a: "fst (finalizeUpload \<lparr>f_uploadId = u_id (uploads ?s ! 0), f_clientHash = None\<rparr> ?s) = None"
    and b: "u_status (uploads (exec empty_blob_libs 12
              (Finalize \<lparr>f_uploadId = u_id (uploads ?s ! 0), f_clientHash = None\<rparr>) ?s) ! 0)
            = PROCESSING"
    by blast+
  from t
  have "transition_ok (u_status (uploads ?s ! 0))
          (u_status (uploads (exec empty_blob_libs 12
              (Finalize \<lparr>f_uploadId = 1, f_clientHash = None\<rparr>) ?s) ! 0))"
    by blast
  then have c: "transition_ok FAILED PROCESSING"
    using b unfolding uid failed by simp
  from t failed blob hash
  have d: "u_status (uploads (run empty_blob_libs
                  [(12, Finalize \<lparr>f_uploadId = u_id (uploads ?s ! 0), f_clientHash = None\<rparr>),
                   (15, StreamDone (length (jobs ?s)) False)] ?s) ! 0)
                = COMPLETED"
    by blast
  let ?ops' = "[(0, Init False example_init),
        (5, Finalize \<lparr>f_uploadId = 1, f_clientHash = Some (JStr zeros_hash)\<rparr>),
        (9, StreamDone 0 False),
        (12, Finalize \<lparr>f_uploadId = 1, f_clientHash = None\<rparr>),
        (15, StreamDone 0 False)]"
  let ?s' = "run empty_blob_libs ?ops' empty_server"
  have len': "0 < length (uploads ?s')"
    unfolding refinalized_example by simp
  have completed: "u_status (uploads ?s' ! 0) = COMPLETED"
    unfolding refinalized_example by simp
  from upload_status_machine[OF refl len',
         of 90000 "Cleanup None"
            "[(90000, Cleanup None), (90001, Finalize \<lparr>f_uploadId = 1, f_clientHash = None\<rparr>)]"
            None "[]" 0 0]
       completed
  have e: "u_status (uploads (run empty_blob_libs
        [(90000, Cleanup None), (90001, Finalize \<lparr>f_uploadId = 1, f_clientHash = None\<rparr>)] ?s') ! 0)
      = COMPLETED"
    by blast
  from failed a b c d e show ?thesis
    unfolding uid no_jobs by (intro conjI)
qed

text \<open>C3 as stated fails: the example upload that a hash mismatch left FAILED is moved to
  PROCESSING by the next finalize request, and to COMPLETED when that request is done.\<close>

theorem failed_upload_finalized_counterexample:
  "map u_status (uploads (run empty_blob_libs
       [(0, Init False example_init),
        (5, Finalize \<lparr>f_uploadId = 1, f_clientHash = Some (JStr zeros_hash)\<rparr>),
        (9, StreamDone 0 False)] empty_server)) = [FAILED]
   \<and> map u_status (uploads (run empty_blob_libs
       [(0, Init False example_init),
        (5, Finalize \<lparr>f_uploadId = 1, f_clientHash = Some (JStr zeros_hash)\<rparr>),
        (9, StreamDone 0 False),
        (12, Finalize \<lparr>f_uploadId = 1, f_clientHash = None\<rparr>)] empty_server)) = [PROCESSING]
   \<and> map u_status (uploads (run empty_blob_libs
       [(0, Init False example_init),
        (5, Finalize \<lparr>f_uploadId = 1, f_clientHash = Some (JStr zeros_hash)\<rparr>),
        (9, StreamDone 0 False),
        (12, Finalize \<lparr>f_uploadId = 1, f_clientHash = None\<rparr>),
        (15, StreamDone 0 False)] empty_server)) = [COMPLETED]"
  unfolding failed_example relocked_example refinalized_example by simp

end
